theory Spec2Isabelle
  imports Complex_Main
begin

section \<open>Data model of the match-assessment subsystem\<close>

text \<open>
  The development embeds the decision half of \<^verbatim>\<open>src/src/prowlarr.ts\<close> (the part
  after the document separator, which imports \<^verbatim>\<open>./prowlarr.js\<close> itself):
  \<^verbatim>\<open>compareFileTrees\<close>, \<^verbatim>\<open>sizeDoesMatch\<close>, \<^verbatim>\<open>assessResultHelper\<close>,
  \<^verbatim>\<open>existsInTorrentCache\<close>, \<^verbatim>\<open>getCachedTorrentFile\<close>, \<^verbatim>\<open>cacheTorrentFile\<close>,
  \<^verbatim>\<open>assessAndSaveResults\<close> and \<^verbatim>\<open>assessResultCaching\<close>.

  A JavaScript \<^verbatim>\<open>number\<close> is an IEEE double. A finite double is a real
  number, and \<open>number\<close> is the type of reals; where the source computes with
  numbers, in the size filter, each operation is followed by the rounding of its
  exact result to the nearest double (\<open>toDouble\<close> below). Infinities, NaN and
  the sign of zero are not represented.
\<close>

type_synonym number = real

section \<open>Rounding to the nearest double\<close>

text \<open>
  IEEE 754 binary64, round to nearest, ties to even: a double is an integer
  multiple of a power of two, its quantum, with at most 53 bits in the multiple,
  and the quantum is never below \<open>2\<^sup>-\<^sup>1\<^sup>0\<^sup>7\<^sup>4\<close>. \<open>bits n\<close> is the number of binary
  digits of \<open>n\<close>. For \<open>x\<close> of magnitude at least 1 the integer part has the
  leading bit of \<open>x\<close>; below 1 the same count is taken after scaling by
  \<open>2\<^sup>1\<^sup>0\<^sup>7\<^sup>4\<close>. Overflow to infinity, for magnitudes from \<open>2\<^sup>1\<^sup>0\<^sup>2\<^sup>4\<close> on, is left
  out.
\<close>

fun bits :: "nat \<Rightarrow> nat" where
  "bits n = (if n = 0 then 0 else Suc (bits (n div 2)))"

declare bits.simps [simp del]

definition pow2 :: "int \<Rightarrow> real" where
  "pow2 q = (if 0 \<le> q then 2 ^ nat q else 1 / 2 ^ nat (- q))"

definition quantum :: "real \<Rightarrow> int" where
  "quantum x =
     (if 1 \<le> \<bar>x\<bar> then int (bits (nat \<lfloor>\<bar>x\<bar>\<rfloor>)) - 53
      else max (int (bits (nat \<lfloor>\<bar>x\<bar> * 2 ^ 1074\<rfloor>)) - 1127) (- 1074))"

definition roundHalfEven :: "real \<Rightarrow> int" where
  "roundHalfEven y =
     (let f = \<lfloor>y\<rfloor>; d = y - of_int f
      in if d < 1 / 2 then f else if 1 / 2 < d then f + 1 else if even f then f else f + 1)"

definition toDouble :: "real \<Rightarrow> number" where
  "toDouble x = of_int (roundHalfEven (x / pow2 (quantum x))) * pow2 (quantum x)"

text \<open>
  Modelled from the spec: the enumeration \<^verbatim>\<open>Decision\<close> of \<^verbatim>\<open>constants.js\<close>, which is
  not among the sources. The spec lists its six values and says that the stored
  decision is a string of that enumeration, so every value is truthy in
  JavaScript.
\<close>

datatype Decision =
    MATCH
  | SIZE_MISMATCH
  | NO_DOWNLOAD_LINK
  | DOWNLOAD_FAILED
  | INFO_HASH_ALREADY_EXISTS
  | FILE_TREE_MISMATCH

text \<open>One file of a file tree: the two fields that \<^verbatim>\<open>cmp\<close> reads.\<close>

record File =
  path :: string
  length_f :: number

text \<open>\<^verbatim>\<open>Metafile\<close> of parse-torrent: the fields read by this module.\<close>

record Metafile =
  infoHash :: string
  files :: "File list"

text \<open>\<^verbatim>\<open>Searchee\<close> of \<^verbatim>\<open>searchee.js\<close>: the fields read by this module.\<close>

record Searchee =
  name :: string
  files :: "File list"
  length_s :: number

section \<open>The file-tree comparator\<close>

text \<open>
  \<^verbatim>\<open>
  const cmp = (elOfA, elOfB) => {
      const lengthsAreEqual = elOfB.length === elOfA.length;
      const pathsAreEqual = elOfB.path === elOfA.path;
      return lengthsAreEqual && pathsAreEqual;
  };
  return candidate.files.every((elOfA) =>
      searchee.files.some((elOfB) => cmp(elOfA, elOfB)));
  \<close>
\<close>

definition cmp :: "File \<Rightarrow> File \<Rightarrow> bool" where
  "cmp elOfA elOfB =
     (let lengthsAreEqual = (length_f elOfB = length_f elOfA);
          pathsAreEqual = (path elOfB = path elOfA)
      in lengthsAreEqual \<and> pathsAreEqual)"

definition compareFileTrees :: "Metafile \<Rightarrow> Searchee \<Rightarrow> bool" where
  "compareFileTrees candidate searchee =
     list_all (\<lambda>elOfA. list_ex (\<lambda>elOfB. cmp elOfA elOfB) (Searchee.files searchee))
       (Metafile.files candidate)"

section \<open>Candidates, cache entries and the world the engine runs in\<close>

text \<open>
  \<^verbatim>\<open>ProwlarrResult\<close>: of its thirty-odd fields the engine reads \<^verbatim>\<open>Guid\<close>,
  \<^verbatim>\<open>Title\<close>, \<^verbatim>\<open>IndexerId\<close>, \<^verbatim>\<open>Link\<close> and \<^verbatim>\<open>Size\<close>. The records come from
  a JSON reply, so \<^verbatim>\<open>Link\<close> may be missing: \<open>None\<close> stands for
  \<^verbatim>\<open>undefined\<close> or \<^verbatim>\<open>null\<close>.
\<close>

record ProwlarrResult =
  Guid :: string
  Title :: string
  IndexerId :: number
  Link :: "string option"
  Size :: number

text \<open>
  \<^verbatim>\<open>DecisionEntry\<close> of \<^verbatim>\<open>db.js\<close>, with the fields this module writes:
  \<^verbatim>\<open>decision\<close>, \<^verbatim>\<open>firstSeen\<close>, \<^verbatim>\<open>lastSeen\<close> and the optional \<^verbatim>\<open>infoHash\<close>.
\<close>

record DecisionEntry =
  decision :: Decision
  firstSeen :: number
  lastSeen :: number
  infoHash :: "string option"

record ResultAssessment =
  decision :: Decision
  info :: "Metafile option"

text \<open>
  What the module does to the outside is recorded in order: each constructor is
  appended to the trace at the place where the source makes the call of that
  name. \<open>Test_Link\<close> is the test \<^verbatim>\<open>!Link\<close>, \<open>Call_includes\<close> the call
  \<^verbatim>\<open>hashesToExclude.includes(info.infoHash)\<close> of \<^verbatim>\<open>assessResultHelper\<close>, and
  \<open>Call_logger_verbose\<close> carries searchee name, tracker, title and reason
  of the message.
\<close>

datatype Event =
    Call_sizeDoesMatch
  | Test_Link
  | Call_parseTorrentFromURL string
  | Call_includes
  | Call_compareFileTrees
  | Call_cacheTorrentFile string
  | Call_getCachedTorrentFile string
  | Call_logger_verbose string number string string
  | Call_db_write

text \<open>
  The surroundings that the engine only reads: the configured
  \<^verbatim>\<open>fuzzySizeThreshold\<close>, the answer of \<^verbatim>\<open>parseTorrentFromURL\<close> for a link
  (\<open>None\<close> is its \<^verbatim>\<open>null\<close>), the clock: \<open>clock env k\<close> is what the
  \<open>k\<close>-th call of \<^verbatim>\<open>Date.now()\<close> returns, and \<open>inheritedName\<close>: the property
  names that a plain object finds up its prototype chain when it has no such
  property of its own. The runtime supplies them with \<^verbatim>\<open>Object.prototype\<close>
  (\<^verbatim>\<open>constructor\<close>, \<^verbatim>\<open>toString\<close>, \<^verbatim>\<open>__proto__\<close> and the like, and whatever
  has been added to it), so they are a parameter here.
\<close>

record Env =
  fuzzySizeThreshold :: number
  parseTorrentFromURL :: "string \<Rightarrow> Metafile option"
  clock :: "nat \<Rightarrow> number"
  inheritedName :: "string \<Rightarrow> bool"

text \<open>
  The state the engine changes: \<open>decisions\<close> is \<^verbatim>\<open>db.data.decisions\<close> in
  memory, as the properties that the object and its partitions have of their
  own (those are what \<^verbatim>\<open>db.write()\<close> serialises and what is loaded at the
  start), \<open>flushed\<close> is the copy that the last \<^verbatim>\<open>db.write()\<close> made durable,
  \<open>torrentCache\<close> is the torrent cache folder (the file
  \<^verbatim>\<open>${infoHash}.cached.torrent\<close> under its infoHash, holding the metafile that
  parsing its bytes gives), \<open>ticks\<close> counts the calls of \<^verbatim>\<open>Date.now()\<close> so far.
\<close>

record World =
  decisions :: "string \<rightharpoonup> (string \<rightharpoonup> DecisionEntry)"
  flushed :: "string \<rightharpoonup> (string \<rightharpoonup> DecisionEntry)"
  torrentCache :: "string \<rightharpoonup> Metafile"
  ticks :: nat
  trace :: "Event list"

text \<open>
  A JavaScript exception: \<open>TypeError\<close> for a property access on
  \<^verbatim>\<open>undefined\<close>, \<open>ENOENT\<close> for reading a file that is not there.
\<close>

datatype Fault = TypeError | ENOENT

text \<open>
  How a run can end without an assessment. \<open>Threw\<close> is an exception.
  \<open>OffMap k\<close> says that the lookup of the key \<open>k\<close> found no property of the
  object's own and \<open>k\<close> is an inherited name: in the source the lookup then yields
  what \<^verbatim>\<open>Object.prototype\<close> holds (a built-in function, the prototype itself,
  an accessor), and reads and writes from there on work on that value, not on the
  decision cache. What the source does then depends on the value and is not
  modelled: the model stops, and nothing is proved of such a run.
\<close>

datatype Stop = Threw Fault | OffMap string

definition emit :: "Event \<Rightarrow> World \<Rightarrow> World" where
  "emit e w = w\<lparr>trace := trace w @ [e]\<rparr>"

definition Date_now :: "Env \<Rightarrow> World \<Rightarrow> number \<times> World" where
  "Date_now env w = (clock env (ticks w), w\<lparr>ticks := Suc (ticks w)\<rparr>)"

text \<open>
  The entry that the decision cache itself holds at \<open>(n, g)\<close>: the property
  \<open>g\<close> of its own of the partition that is the property \<open>n\<close> of its own of
  \<^verbatim>\<open>db.data.decisions\<close>. This is for stating results; the source's reads are
  \<open>readPartition\<close> and \<open>readEntry\<close>.
\<close>

definition entryAt :: "World \<Rightarrow> string \<Rightarrow> string \<Rightarrow> DecisionEntry option" where
  "entryAt w n g = (case decisions w n of None \<Rightarrow> None | Some part \<Rightarrow> part g)"

text \<open>
  \<^verbatim>\<open>db.data.decisions[n]\<close> as the source reads it: the property of its own
  when there is one (it shadows whatever is inherited), \<^verbatim>\<open>undefined\<close> when there
  is none and \<open>n\<close> is not an inherited name, and otherwise an inherited value.
\<close>

definition readPartition ::
  "Env \<Rightarrow> World \<Rightarrow> string \<Rightarrow> Stop + (string \<rightharpoonup> DecisionEntry) option" where
  "readPartition env w n =
     (case decisions w n of
        Some part \<Rightarrow> Inr (Some part)
      | None \<Rightarrow> if inheritedName env n then Inl (OffMap n) else Inr None)"

text \<open>\<^verbatim>\<open>part[g]\<close> for a partition of the cache, read in the same way.\<close>

definition readProperty ::
  "Env \<Rightarrow> (string \<rightharpoonup> DecisionEntry) \<Rightarrow> string \<Rightarrow> Stop + DecisionEntry option" where
  "readProperty env part g =
     (case part g of
        Some e \<Rightarrow> Inr (Some e)
      | None \<Rightarrow> if inheritedName env g then Inl (OffMap g) else Inr None)"

text \<open>
  \<^verbatim>\<open>db.data.decisions[n][g]\<close>: a \<^verbatim>\<open>TypeError\<close> when
  \<^verbatim>\<open>db.data.decisions[n]\<close> is \<^verbatim>\<open>undefined\<close>.
\<close>

definition readEntry :: "Env \<Rightarrow> World \<Rightarrow> string \<Rightarrow> string \<Rightarrow> Stop + DecisionEntry option" where
  "readEntry env w n g =
     (case readPartition env w n of
        Inl stop \<Rightarrow> Inl stop
      | Inr None \<Rightarrow> Inl (Threw TypeError)
      | Inr (Some part) \<Rightarrow> readProperty env part g)"

text \<open>
  \<^verbatim>\<open>db.data.decisions[n][g] = e\<close>. The assignment overwrites a property of the
  partition's own and creates one when \<open>g\<close> is found nowhere; when \<open>g\<close> is only
  inherited, what it does depends on the inherited property (a setter, a
  read-only property, a writable one), and the model stops.
\<close>

definition putEntry ::
  "Env \<Rightarrow> string \<Rightarrow> string \<Rightarrow> DecisionEntry \<Rightarrow> World \<Rightarrow> Stop + World" where
  "putEntry env n g e w =
     (case readPartition env w n of
        Inl stop \<Rightarrow> Inl stop
      | Inr None \<Rightarrow> Inl (Threw TypeError)
      | Inr (Some part) \<Rightarrow>
          (case readProperty env part g of
             Inl stop \<Rightarrow> Inl stop
           | Inr old \<Rightarrow> Inr (w\<lparr>decisions := (decisions w)(n \<mapsto> part(g \<mapsto> e))\<rparr>)))"

text \<open>
  \<^verbatim>\<open>db.data.decisions[n][g].field = v\<close>: a \<^verbatim>\<open>TypeError\<close> when the partition or
  the entry is \<^verbatim>\<open>undefined\<close>.
\<close>

definition updEntry ::
  "Env \<Rightarrow> string \<Rightarrow> string \<Rightarrow> (DecisionEntry \<Rightarrow> DecisionEntry) \<Rightarrow> World \<Rightarrow> Stop + World" where
  "updEntry env n g f w =
     (case readPartition env w n of
        Inl stop \<Rightarrow> Inl stop
      | Inr None \<Rightarrow> Inl (Threw TypeError)
      | Inr (Some part) \<Rightarrow>
          (case readProperty env part g of
             Inl stop \<Rightarrow> Inl stop
           | Inr None \<Rightarrow> Inl (Threw TypeError)
           | Inr (Some e) \<Rightarrow> Inr (w\<lparr>decisions := (decisions w)(n \<mapsto> part(g \<mapsto> f e))\<rparr>)))"

definition db_write :: "World \<Rightarrow> World" where
  "db_write w = emit Call_db_write (w\<lparr>flushed := decisions w\<rparr>)"

section \<open>The size filter\<close>

text \<open>
  \<^verbatim>\<open>
  const { length } = searchee;
  const lowerBound = length - fuzzySizeThreshold * length;
  const upperBound = length + fuzzySizeThreshold * length;
  return resultSize >= lowerBound && resultSize <= upperBound;
  \<close>
\<close>

text \<open>
  The product is rounded, then the difference and the sum are. The comparisons
  are exact.
\<close>

definition sizeDoesMatch :: "Env \<Rightarrow> number \<Rightarrow> Searchee \<Rightarrow> bool" where
  "sizeDoesMatch env resultSize searchee =
     (let len = length_s searchee;
          lowerBound = toDouble (len - toDouble (fuzzySizeThreshold env * len));
          upperBound = toDouble (len + toDouble (fuzzySizeThreshold env * len))
      in resultSize \<ge> lowerBound \<and> resultSize \<le> upperBound)"

section \<open>The full assessment\<close>

definition verdict :: "Decision \<Rightarrow> ResultAssessment" where
  "verdict d = \<lparr>ResultAssessment.decision = d, info = None\<rparr>"

text \<open>
  \<^verbatim>\<open>assessResultHelper\<close>. \<^verbatim>\<open>!Link\<close> holds for a missing link and for the empty
  string. The fetched metafile, \<^verbatim>\<open>info\<close> in the source, is \<open>meta\<close> here.
\<close>

definition assessResultHelper ::
  "Env \<Rightarrow> ProwlarrResult \<Rightarrow> Searchee \<Rightarrow> string list \<Rightarrow> World \<Rightarrow> ResultAssessment \<times> World" where
  "assessResultHelper env result searchee hashesToExclude w =
     (let w1 = emit Call_sizeDoesMatch w in
      if \<not> sizeDoesMatch env (Size result) searchee then (verdict SIZE_MISMATCH, w1)
      else
        let w2 = emit Test_Link w1 in
        case Link result of
          None \<Rightarrow> (verdict NO_DOWNLOAD_LINK, w2)
        | Some link \<Rightarrow>
            if link = [] then (verdict NO_DOWNLOAD_LINK, w2)
            else
              let w3 = emit (Call_parseTorrentFromURL link) w2 in
              (case parseTorrentFromURL env link of
                None \<Rightarrow> (verdict DOWNLOAD_FAILED, w3)
              | Some meta \<Rightarrow>
                  let w4 = emit Call_includes w3 in
                  if Metafile.infoHash meta \<in> set hashesToExclude
                  then (verdict INFO_HASH_ALREADY_EXISTS, w4)
                  else
                    let w5 = emit Call_compareFileTrees w4 in
                    if \<not> compareFileTrees meta searchee
                    then (verdict FILE_TREE_MISMATCH, w5)
                    else (\<lparr>ResultAssessment.decision = MATCH, info = Some meta\<rparr>, w5)))"

section \<open>The torrent-file cache\<close>

text \<open>
  Modelled from the spec: \<^verbatim>\<open>parseTorrentFromFilename\<close> of \<^verbatim>\<open>torrent.js\<close> and
  \<^verbatim>\<open>parseTorrent.toTorrentFile\<close> are not among the sources. The specification
  gives their round-trip law: reading back what was written for a metafile yields
  a metafile with the same infoHash and the same ordered file tree. So the cache
  folder is a map from the infoHash in the file name to the metafile that the
  file parses to, and writing a metafile stores that metafile.

  The file name is built with a template literal, so a missing infoHash reads as
  the text \<^verbatim>\<open>undefined\<close>.
\<close>

definition cacheKey :: "string option \<Rightarrow> string" where
  "cacheKey h = (case h of None \<Rightarrow> ''undefined'' | Some s \<Rightarrow> s)"

definition existsInTorrentCache :: "string option \<Rightarrow> World \<Rightarrow> bool" where
  "existsInTorrentCache h w = (torrentCache w (cacheKey h) \<noteq> None)"

definition getCachedTorrentFile :: "string option \<Rightarrow> World \<Rightarrow> Stop + Metafile \<times> World" where
  "getCachedTorrentFile h w =
     (case torrentCache w (cacheKey h) of
        None \<Rightarrow> Inl (Threw ENOENT)
      | Some meta \<Rightarrow> Inr (meta, emit (Call_getCachedTorrentFile (cacheKey h)) w))"

definition cacheTorrentFile :: "Metafile \<Rightarrow> World \<Rightarrow> World" where
  "cacheTorrentFile meta w =
     emit (Call_cacheTorrentFile (Metafile.infoHash meta))
       (w\<lparr>torrentCache := (torrentCache w)(Metafile.infoHash meta \<mapsto> meta)\<rparr>)"

section \<open>The reason logger\<close>

text \<open>
  \<^verbatim>\<open>createReasonLogger\<close>: nothing is logged for \<^verbatim>\<open>MATCH\<close>; every other decision
  has its sentence, with \<^verbatim>\<open>(cached)\<close> added for a cached rejection.
\<close>

fun reasonText :: "Decision \<Rightarrow> string" where
  "reasonText MATCH = []"
| "reasonText SIZE_MISMATCH = ''its size does not match''"
| "reasonText NO_DOWNLOAD_LINK = ''it doesn't have a download link''"
| "reasonText DOWNLOAD_FAILED = ''the torrent file failed to download''"
| "reasonText INFO_HASH_ALREADY_EXISTS = ''the info hash matches a torrent you already have''"
| "reasonText FILE_TREE_MISMATCH = ''it has a different file tree''"

definition logReason :: "ProwlarrResult \<Rightarrow> Searchee \<Rightarrow> Decision \<Rightarrow> bool \<Rightarrow> World \<Rightarrow> World" where
  "logReason result searchee d cached w =
     (if d = MATCH then w
      else
        let reason = reasonText d in
        emit (Call_logger_verbose (name searchee) (IndexerId result) (Title result)
               (if cached then reason @ '' (cached)'' else reason)) w)"

section \<open>The engine\<close>

text \<open>
  \<^verbatim>\<open>assessAndSaveResults\<close>: the entry is written as a new object literal, whose
  \<^verbatim>\<open>lastSeen\<close> is evaluated before its \<^verbatim>\<open>firstSeen\<close>, and has no
  \<^verbatim>\<open>infoHash\<close> until the \<^verbatim>\<open>MATCH\<close> branch adds one.
\<close>

definition assessAndSaveResults ::
  "Env \<Rightarrow> ProwlarrResult \<Rightarrow> Searchee \<Rightarrow> string \<Rightarrow> string list \<Rightarrow> World
     \<Rightarrow> Stop + ResultAssessment \<times> World" where
  "assessAndSaveResults env result searchee guid infoHashesToExclude w =
     (let (assessment, w1) = assessResultHelper env result searchee infoHashesToExclude w;
          (lastSeenNow, w2) = Date_now env w1;
          (firstSeenNow, w3) = Date_now env w2;
          entry = \<lparr>DecisionEntry.decision = ResultAssessment.decision assessment,
                   firstSeen = firstSeenNow, lastSeen = lastSeenNow,
                   infoHash = None\<rparr>
      in case putEntry env (name searchee) guid entry w3 of
           Inl stop \<Rightarrow> Inl stop
         | Inr w4 \<Rightarrow>
             if ResultAssessment.decision assessment = MATCH then
               (case info assessment of
                  None \<Rightarrow> Inl (Threw TypeError)
                | Some meta \<Rightarrow>
                    (case updEntry env (name searchee) guid
                            (\<lambda>e. e\<lparr>DecisionEntry.infoHash := Some (Metafile.infoHash meta)\<rparr>) w4 of
                       Inl stop \<Rightarrow> Inl stop
                     | Inr w5 \<Rightarrow> Inr (assessment, cacheTorrentFile meta w5)))
             else Inr (assessment, w4))"

text \<open>\<^verbatim>\<open>infoHashesToExclude.includes(cacheEntry.infoHash)\<close>, false for a missing infoHash.\<close>

definition includes_js :: "string list \<Rightarrow> string option \<Rightarrow> bool" where
  "includes_js hashes h = (case h of None \<Rightarrow> False | Some s \<Rightarrow> s \<in> set hashes)"

text \<open>
  The two branches of \<^verbatim>\<open>assessResultCaching\<close> that run the full assessment have
  the same body: \<^verbatim>\<open>assessAndSaveResults\<close>, then \<^verbatim>\<open>logReason(assessment.decision, false)\<close>.
\<close>

definition assessAndLog ::
  "Env \<Rightarrow> ProwlarrResult \<Rightarrow> Searchee \<Rightarrow> string list \<Rightarrow> World
     \<Rightarrow> Stop + ResultAssessment \<times> World" where
  "assessAndLog env result searchee infoHashesToExclude w =
     (case assessAndSaveResults env result searchee (Guid result) infoHashesToExclude w of
        Inl stop \<Rightarrow> Inl stop
      | Inr (assessment, w1) \<Rightarrow>
          Inr (assessment, logReason result searchee (ResultAssessment.decision assessment) False w1))"

text \<open>
  The branch of \<^verbatim>\<open>assessResultCaching\<close> taken for the entry read at the start.
  \<^verbatim>\<open>!cacheEntry?.decision\<close> holds exactly when there is no entry, every decision
  being a non-empty string.
\<close>

definition decide ::
  "Env \<Rightarrow> ProwlarrResult \<Rightarrow> Searchee \<Rightarrow> string list \<Rightarrow> DecisionEntry option \<Rightarrow> World
     \<Rightarrow> Stop + ResultAssessment \<times> World" where
  "decide env result searchee infoHashesToExclude cacheEntry w =
     (case cacheEntry of
        None \<Rightarrow> assessAndLog env result searchee infoHashesToExclude w
      | Some ce \<Rightarrow>
          if DecisionEntry.decision ce = DOWNLOAD_FAILED
          then assessAndLog env result searchee infoHashesToExclude w
          else if DecisionEntry.decision ce = MATCH
                  \<and> includes_js infoHashesToExclude (DecisionEntry.infoHash ce)
          then
            (case updEntry env (name searchee) (Guid result)
                    (\<lambda>e. e\<lparr>DecisionEntry.decision := INFO_HASH_ALREADY_EXISTS\<rparr>) w of
               Inl stop \<Rightarrow> Inl stop
             | Inr w1 \<Rightarrow> Inr (verdict INFO_HASH_ALREADY_EXISTS, w1))
          else if DecisionEntry.decision ce = MATCH
                  \<and> existsInTorrentCache (DecisionEntry.infoHash ce) w
          then
            (case getCachedTorrentFile (DecisionEntry.infoHash ce) w of
               Inl stop \<Rightarrow> Inl stop
             | Inr (meta, w1) \<Rightarrow>
                 Inr (\<lparr>ResultAssessment.decision = DecisionEntry.decision ce,
                       info = Some meta\<rparr>, w1))
          else if DecisionEntry.decision ce = MATCH
          then assessAndLog env result searchee infoHashesToExclude w
          else Inr (verdict (DecisionEntry.decision ce),
                    logReason result searchee (DecisionEntry.decision ce) True w))"

text \<open>
  \<^verbatim>\<open>db.data.decisions[searchee.name] ??= {}\<close>: the assignment happens when the
  read gives \<^verbatim>\<open>undefined\<close>, and not when it gives a partition or an inherited
  value.
\<close>

definition ensurePartition :: "Env \<Rightarrow> string \<Rightarrow> World \<Rightarrow> Stop + World" where
  "ensurePartition env n w =
     (case readPartition env w n of
        Inl stop \<Rightarrow> Inl stop
      | Inr None \<Rightarrow> Inr (w\<lparr>decisions := (decisions w)(n \<mapsto> Map.empty)\<rparr>)
      | Inr (Some part) \<Rightarrow> Inr w)"

text \<open>\<^verbatim>\<open>assessResultCaching\<close>, exported as \<^verbatim>\<open>assessResult\<close>.\<close>

definition assessResultCaching ::
  "Env \<Rightarrow> ProwlarrResult \<Rightarrow> Searchee \<Rightarrow> string list \<Rightarrow> World
     \<Rightarrow> Stop + ResultAssessment \<times> World" where
  "assessResultCaching env result searchee infoHashesToExclude w =
     (case ensurePartition env (name searchee) w of
        Inl stop \<Rightarrow> Inl stop
      | Inr w0 \<Rightarrow>
          (case readEntry env w0 (name searchee) (Guid result) of
             Inl stop \<Rightarrow> Inl stop
           | Inr cacheEntry \<Rightarrow>
               (case decide env result searchee infoHashesToExclude cacheEntry w0 of
                  Inl stop \<Rightarrow> Inl stop
                | Inr (assessment, w1) \<Rightarrow>
                    (let (now, w2) = Date_now env w1
                     in case updEntry env (name searchee) (Guid result)
                               (\<lambda>e. e\<lparr>lastSeen := now\<rparr>) w2 of
                          Inl stop \<Rightarrow> Inl stop
                        | Inr w3 \<Rightarrow> Inr (assessment, db_write w3)))))"

section \<open>The assessment as the specification words it\<close>

text \<open>
  The specification describes the full assessment as five stages in a fixed order,
  each with the rejection it stands for: size check, download-link presence,
  metafile fetch, infoHash-exclusion check, file-tree comparison. The definitions
  of this section follow those words, not the source; \<open>assessResultHelper\<close> is
  compared with them below. A stage that needs the fetched metafile counts as
  failed when there is none.
\<close>

record Stage =
  rejection :: Decision
  event :: Event
  passes :: bool

definition linkText :: "ProwlarrResult \<Rightarrow> string" where
  "linkText result = (case Link result of None \<Rightarrow> [] | Some link \<Rightarrow> link)"

definition fetchedMetafile :: "Env \<Rightarrow> ProwlarrResult \<Rightarrow> Metafile option" where
  "fetchedMetafile env result =
     (if linkText result = [] then None else parseTorrentFromURL env (linkText result))"

definition stages :: "Env \<Rightarrow> ProwlarrResult \<Rightarrow> Searchee \<Rightarrow> string list \<Rightarrow> Stage list" where
  "stages env result searchee hashesToExclude =
     [\<lparr>rejection = SIZE_MISMATCH, event = Call_sizeDoesMatch,
        passes = sizeDoesMatch env (Size result) searchee\<rparr>,
      \<lparr>rejection = NO_DOWNLOAD_LINK, event = Test_Link,
        passes = (linkText result \<noteq> [])\<rparr>,
      \<lparr>rejection = DOWNLOAD_FAILED, event = Call_parseTorrentFromURL (linkText result),
        passes = (fetchedMetafile env result \<noteq> None)\<rparr>,
      \<lparr>rejection = INFO_HASH_ALREADY_EXISTS, event = Call_includes,
        passes = (case fetchedMetafile env result of
                    None \<Rightarrow> False
                  | Some meta \<Rightarrow> Metafile.infoHash meta \<notin> set hashesToExclude)\<rparr>,
      \<lparr>rejection = FILE_TREE_MISMATCH, event = Call_compareFileTrees,
        passes = (case fetchedMetafile env result of
                    None \<Rightarrow> False
                  | Some meta \<Rightarrow> compareFileTrees meta searchee)\<rparr>]"

text \<open>The stages that run: those that pass, and the first one that fails.\<close>

definition stagesEvaluated :: "Stage list \<Rightarrow> Stage list" where
  "stagesEvaluated sts = takeWhile passes sts @ take 1 (dropWhile passes sts)"

text \<open>The decision of the first failing stage, or a match carrying the fetched metafile.\<close>

definition stagedAssessment :: "Env \<Rightarrow> ProwlarrResult \<Rightarrow> Stage list \<Rightarrow> ResultAssessment" where
  "stagedAssessment env result sts =
     (case dropWhile passes sts of
        [] \<Rightarrow> \<lparr>ResultAssessment.decision = MATCH, info = fetchedMetafile env result\<rparr>
      | failing # later \<Rightarrow> \<lparr>ResultAssessment.decision = rejection failing, info = None\<rparr>)"

definition assessed :: "Env \<Rightarrow> ProwlarrResult \<Rightarrow> Searchee \<Rightarrow> string list \<Rightarrow> ResultAssessment" where
  "assessed env result searchee ex = stagedAssessment env result (stages env result searchee ex)"

definition stageEvents :: "Env \<Rightarrow> ProwlarrResult \<Rightarrow> Searchee \<Rightarrow> string list \<Rightarrow> Event list" where
  "stageEvents env result searchee ex = map event (stagesEvaluated (stages env result searchee ex))"

fun isStageEvent :: "Event \<Rightarrow> bool" where
  "isStageEvent Call_sizeDoesMatch = True"
| "isStageEvent Test_Link = True"
| "isStageEvent (Call_parseTorrentFromURL link) = True"
| "isStageEvent Call_includes = True"
| "isStageEvent Call_compareFileTrees = True"
| "isStageEvent (Call_cacheTorrentFile h) = False"
| "isStageEvent (Call_getCachedTorrentFile h) = False"
| "isStageEvent (Call_logger_verbose n t title reason) = False"
| "isStageEvent Call_db_write = False"

fun isFetch :: "Event \<Rightarrow> bool" where
  "isFetch (Call_parseTorrentFromURL link) = True"
| "isFetch Call_sizeDoesMatch = False"
| "isFetch Test_Link = False"
| "isFetch Call_includes = False"
| "isFetch Call_compareFileTrees = False"
| "isFetch (Call_cacheTorrentFile h) = False"
| "isFetch (Call_getCachedTorrentFile h) = False"
| "isFetch (Call_logger_verbose n t title reason) = False"
| "isFetch Call_db_write = False"

section \<open>The state machine as the specification words it\<close>

text \<open>
  The six cases of the specification's state machine for a pair of searchee and
  candidate, in its numbering: 1 no entry, 2 cached \<open>DOWNLOAD_FAILED\<close>, 3 cached
  \<open>MATCH\<close> whose infoHash is in the exclusion set, 4 cached \<open>MATCH\<close>, not
  excluded, torrent file still cached, 5 the same with the torrent file gone,
  6 any other cached rejection.
\<close>

datatype Branch =
    NoEntry
  | RetryDownload
  | Exclusion
  | CachedMatch
  | Regenerate
  | CachedRejection

definition branchOf :: "string list \<Rightarrow> World \<Rightarrow> DecisionEntry option \<Rightarrow> Branch" where
  "branchOf ex w cacheEntry =
     (case cacheEntry of
        None \<Rightarrow> NoEntry
      | Some ce \<Rightarrow>
          if DecisionEntry.decision ce = DOWNLOAD_FAILED then RetryDownload
          else if DecisionEntry.decision ce = MATCH then
            (if includes_js ex (DecisionEntry.infoHash ce) then Exclusion
             else if existsInTorrentCache (DecisionEntry.infoHash ce) w then CachedMatch
             else Regenerate)
          else CachedRejection)"

text \<open>The cases in which the state machine runs the full assessment: 1, 2 and 5.\<close>

fun fullAssessment :: "Branch \<Rightarrow> bool" where
  "fullAssessment NoEntry = True"
| "fullAssessment RetryDownload = True"
| "fullAssessment Regenerate = True"
| "fullAssessment Exclusion = False"
| "fullAssessment CachedMatch = False"
| "fullAssessment CachedRejection = False"

section \<open>Auxiliary notions for stating the results\<close>

text \<open>The partition of a searchee name, empty when there is none yet.\<close>

definition partitionOf :: "World \<Rightarrow> string \<Rightarrow> (string \<rightharpoonup> DecisionEntry)" where
  "partitionOf w n = (case decisions w n of None \<Rightarrow> Map.empty | Some part \<Rightarrow> part)"

text \<open>
  The reads and writes of a run for \<open>(n, g)\<close> stay within the decision cache:
  wherever the cache has no property of its own for a key of the run, the key
  is not an inherited name either.
\<close>

definition plainAccess :: "Env \<Rightarrow> World \<Rightarrow> string \<Rightarrow> string \<Rightarrow> bool" where
  "plainAccess env w n g =
     (case decisions w n of
        None \<Rightarrow> \<not> inheritedName env n \<and> \<not> inheritedName env g
      | Some part \<Rightarrow> (case part g of None \<Rightarrow> \<not> inheritedName env g | Some e \<Rightarrow> True))"

text \<open>
  The entry that \<open>assessAndSaveResults\<close> leaves for an assessment \<open>a\<close> when it starts
  in \<open>w\<close>, what it adds to the torrent cache, and what it and the reason logger
  add to the trace.
\<close>

definition freshEntry :: "Env \<Rightarrow> World \<Rightarrow> ResultAssessment \<Rightarrow> DecisionEntry" where
  "freshEntry env w a =
     \<lparr>DecisionEntry.decision = ResultAssessment.decision a,
      firstSeen = clock env (Suc (ticks w)), lastSeen = clock env (ticks w),
      infoHash = map_option Metafile.infoHash (info a)\<rparr>"

definition savedCache :: "ResultAssessment \<Rightarrow> (string \<rightharpoonup> Metafile) \<Rightarrow> (string \<rightharpoonup> Metafile)" where
  "savedCache a tc =
     (case info a of None \<Rightarrow> tc | Some meta \<Rightarrow> tc(Metafile.infoHash meta \<mapsto> meta))"

definition saveEvents :: "ResultAssessment \<Rightarrow> Event list" where
  "saveEvents a =
     (case info a of
        None \<Rightarrow> []
      | Some meta \<Rightarrow> [Call_cacheTorrentFile (Metafile.infoHash meta)])"

definition logEvents :: "ProwlarrResult \<Rightarrow> Searchee \<Rightarrow> Decision \<Rightarrow> bool \<Rightarrow> Event list" where
  "logEvents r s d cached =
     (if d = MATCH then []
      else [Call_logger_verbose (name s) (IndexerId r) (Title r)
              (if cached then reasonText d @ '' (cached)'' else reasonText d)])"

text \<open>What a run that went from \<open>w\<close> to \<open>w'\<close> appended to the trace.\<close>

definition newEvents :: "World \<Rightarrow> World \<Rightarrow> Event list" where
  "newEvents w w' = drop (length (trace w)) (trace w')"

text \<open>Readings of an outcome, \<open>None\<close> when the run ended without an assessment.\<close>

definition decisionOf :: "Stop + ResultAssessment \<times> World \<Rightarrow> Decision option" where
  "decisionOf out =
     (case out of Inl fault \<Rightarrow> None | Inr (a, w') \<Rightarrow> Some (ResultAssessment.decision a))"

definition entryAfter ::
  "Stop + ResultAssessment \<times> World \<Rightarrow> string \<Rightarrow> string \<Rightarrow> DecisionEntry option" where
  "entryAfter out n g = (case out of Inl fault \<Rightarrow> None | Inr (a, w') \<Rightarrow> entryAt w' n g)"

definition eventsOf :: "World \<Rightarrow> Stop + ResultAssessment \<times> World \<Rightarrow> Event list option" where
  "eventsOf w out = (case out of Inl fault \<Rightarrow> None | Inr (a, w') \<Rightarrow> Some (newEvents w w'))"

definition worldAfter :: "World \<Rightarrow> Stop + ResultAssessment \<times> World \<Rightarrow> World" where
  "worldAfter w out = (case out of Inl fault \<Rightarrow> w | Inr (a, w') \<Rightarrow> w')"

text \<open>
  A world is later than another when runs of the engine lead from the one to the
  other, for whatever candidates, searchees, exclusion sets and surroundings.
\<close>

inductive later :: "World \<Rightarrow> World \<Rightarrow> bool" where
  later_refl: "later w w"
| later_run:
    "later w w' \<Longrightarrow> assessResultCaching env r s ex w' = Inr (a, w'') \<Longrightarrow> later w w''"

section \<open>Sample inputs\<close>

definition sampleFile :: File where
  "sampleFile = \<lparr>path = ''a/b.mkv'', length_f = 100\<rparr>"

definition sampleMeta :: Metafile where
  "sampleMeta = \<lparr>Metafile.infoHash = ''h1'', files = [sampleFile]\<rparr>"

definition sampleSearchee :: Searchee where
  "sampleSearchee = \<lparr>name = ''S'', files = [sampleFile], length_s = 100\<rparr>"

definition sampleResult :: ProwlarrResult where
  "sampleResult = \<lparr>Guid = ''g'', Title = ''T'', IndexerId = 1, Link = Some ''u'', Size = 100\<rparr>"

text \<open>The same candidate announced with a size far outside the tolerance.\<close>

definition smallResult :: ProwlarrResult where
  "smallResult = \<lparr>Guid = ''g'', Title = ''T'', IndexerId = 1, Link = Some ''u'', Size = 5\<rparr>"

text \<open>
  The default tolerance 0.02 as a double, and names that every plain object
  inherits.
\<close>

definition defaultThreshold :: number where
  "defaultThreshold = 5764607523034235 / 2 ^ 58"

definition builtinName :: "string \<Rightarrow> bool" where
  "builtinName k =
     (k \<in> set [''__proto__'', ''constructor'', ''hasOwnProperty'', ''isPrototypeOf'',
               ''propertyIsEnumerable'', ''toLocaleString'', ''toString'', ''valueOf'',
               ''__defineGetter__'', ''__defineSetter__'', ''__lookupGetter__'',
               ''__lookupSetter__''])"

definition sampleEnv :: Env where
  "sampleEnv =
     \<lparr>fuzzySizeThreshold = defaultThreshold,
      parseTorrentFromURL = (\<lambda>link. if link = ''u'' then Some sampleMeta else None),
      clock = (\<lambda>k. 100 + real k),
      inheritedName = builtinName\<rparr>"

text \<open>
  Surroundings with the tolerance one quarter, a searchee of \<open>2\<^sup>5\<^sup>3 - 1\<close> bytes,
  one of 1000 bytes, and the searchee of the specification's example, of
  \<open>10\<^sup>9\<close> bytes.
\<close>

definition quarterEnv :: Env where
  "quarterEnv = sampleEnv\<lparr>fuzzySizeThreshold := 1 / 4\<rparr>"

definition bigSearchee :: Searchee where
  "bigSearchee = \<lparr>name = ''S'', files = [sampleFile], length_s = 9007199254740991\<rparr>"

definition kiloSearchee :: Searchee where
  "kiloSearchee = \<lparr>name = ''S'', files = [sampleFile], length_s = 1000\<rparr>"

definition gigaSearchee :: Searchee where
  "gigaSearchee = \<lparr>name = ''S'', files = [sampleFile], length_s = 1000000000\<rparr>"

text \<open>Surroundings in which every download fails.\<close>

definition offlineEnv :: Env where
  "offlineEnv =
     \<lparr>fuzzySizeThreshold = defaultThreshold,
      parseTorrentFromURL = (\<lambda>link. None),
      clock = (\<lambda>k. 100 + real k),
      inheritedName = builtinName\<rparr>"

definition emptyWorld :: World where
  "emptyWorld =
     \<lparr>decisions = Map.empty, flushed = Map.empty, torrentCache = Map.empty,
      ticks = 0, trace = []\<rparr>"

text \<open>A world whose only entry is \<open>e\<close>, for searchee \<open>S\<close> and guid \<open>g\<close>.\<close>

definition worldWith :: "DecisionEntry \<Rightarrow> (string \<rightharpoonup> Metafile) \<Rightarrow> World" where
  "worldWith e tc =
     \<lparr>decisions = [''S'' \<mapsto> [''g'' \<mapsto> e]], flushed = Map.empty, torrentCache = tc,
      ticks = 0, trace = []\<rparr>"

definition entryOf :: "Decision \<Rightarrow> string option \<Rightarrow> DecisionEntry" where
  "entryOf d h = \<lparr>DecisionEntry.decision = d, firstSeen = 5, lastSeen = 6, infoHash = h\<rparr>"

text \<open>A candidate with a second file whose path differs from the first only in case.\<close>

definition upperFile :: File where
  "upperFile = \<lparr>path = ''A/B.MKV'', length_f = 100\<rparr>"

definition upperMeta :: Metafile where
  "upperMeta = \<lparr>Metafile.infoHash = ''h2'', files = [sampleFile, upperFile]\<rparr>"

definition extraFile :: File where
  "extraFile = \<lparr>path = ''a/c.nfo'', length_f = 7\<rparr>"

text \<open>
  A world in which the pair of \<open>S\<close> and \<open>g\<close> has been decided
  \<open>INFO_HASH_ALREADY_EXISTS\<close> for the infoHash \<open>h1\<close>, with the torrent file of
  \<open>h1\<close> in the cache.
\<close>

definition settledWorld :: World where
  "settledWorld = worldWith (entryOf INFO_HASH_ALREADY_EXISTS (Some ''h1'')) [''h1'' \<mapsto> sampleMeta]"

section \<open>Properties of the comparator\<close>

lemma cmp_iff: "cmp a b \<longleftrightarrow> path b = path a \<and> length_f b = length_f a"
  by (auto simp: cmp_def)

lemma compareFileTrees_iff:
  "compareFileTrees c s \<longleftrightarrow>
     (\<forall>a \<in> set (Metafile.files c). \<exists>b \<in> set (Searchee.files s).
        path b = path a \<and> length_f b = length_f a)"
  by (simp add: compareFileTrees_def list_all_iff list_ex_iff cmp_iff)

text \<open>
  Claim C8. The comparator answers true exactly when every file of the candidate
  tree has a file of the searchee tree with the same path string and the same
  length. Hence a candidate file with no such counterpart gives false, and files
  added to the searchee tree never turn a match into a mismatch: the comparison
  is one-sided. Paths are compared as they are, character by character.
\<close>

theorem compareFileTrees_subset_law:
  "(compareFileTrees c s \<longleftrightarrow>
      (\<forall>a \<in> set (Metafile.files c). \<exists>b \<in> set (Searchee.files s).
         path b = path a \<and> length_f b = length_f a))
   \<and> (a \<in> set (Metafile.files c) \<and>
        (\<forall>b \<in> set (Searchee.files s). path b \<noteq> path a \<or> length_f b \<noteq> length_f a)
        \<longrightarrow> \<not> compareFileTrees c s)
   \<and> (compareFileTrees c s \<longrightarrow>
        compareFileTrees c (s\<lparr>Searchee.files := Searchee.files s @ extra\<rparr>))"
proof (intro conjI impI)
  show "compareFileTrees c s \<longleftrightarrow>
      (\<forall>a \<in> set (Metafile.files c). \<exists>b \<in> set (Searchee.files s).
         path b = path a \<and> length_f b = length_f a)"
    by (rule compareFileTrees_iff)
next
  assume "a \<in> set (Metafile.files c) \<and>
        (\<forall>b \<in> set (Searchee.files s). path b \<noteq> path a \<or> length_f b \<noteq> length_f a)"
  then show "\<not> compareFileTrees c s"
    unfolding compareFileTrees_iff by blast
next
  assume "compareFileTrees c s"
  then show "compareFileTrees c (s\<lparr>Searchee.files := Searchee.files s @ extra\<rparr>)"
    unfolding compareFileTrees_iff by auto
qed

text \<open>
  The theorem at the samples: the sample metafile matches the sample searchee,
  and still does when the searchee has a file more; a candidate with a file whose
  path is that of a searchee file in capitals does not match.
\<close>

theorem compareFileTrees_subset_law_witness:
  "compareFileTrees sampleMeta sampleSearchee
   \<and> compareFileTrees sampleMeta
        (sampleSearchee\<lparr>Searchee.files := Searchee.files sampleSearchee @ [extraFile]\<rparr>)
   \<and> upperFile \<in> set (Metafile.files upperMeta)
   \<and> list_all (\<lambda>b. path b \<noteq> path upperFile \<or> length_f b \<noteq> length_f upperFile)
         (Searchee.files sampleSearchee)
   \<and> \<not> compareFileTrees upperMeta sampleSearchee"
  using compareFileTrees_subset_law [of sampleMeta sampleSearchee upperFile "[extraFile]"]
        compareFileTrees_subset_law [of upperMeta sampleSearchee upperFile "[]"]
  by (simp add: sampleMeta_def sampleSearchee_def sampleFile_def upperMeta_def upperFile_def)

section \<open>Rounding: error and exactness\<close>

lemma bits_numeral:
  "bits 0 = 0"
  "bits (Suc 0) = Suc 0"
  "bits (numeral k) = Suc (bits (numeral k div 2))"
  by (simp_all add: bits.simps)

lemma pow2_pos: "0 < pow2 q"
  by (simp add: pow2_def)

lemma roundHalfEven_error: "\<bar>of_int (roundHalfEven y) - y\<bar> \<le> 1 / 2"
proof -
  have "of_int \<lfloor>y\<rfloor> \<le> y" "y < of_int \<lfloor>y\<rfloor> + 1"
    by linarith+
  then show ?thesis
    by (auto simp: roundHalfEven_def Let_def)
qed

lemma roundHalfEven_of_int: "roundHalfEven (of_int k) = k"
  by (simp add: roundHalfEven_def)

text \<open>Rounding moves a number by half a quantum at most.\<close>

lemma toDouble_error: "\<bar>toDouble x - x\<bar> \<le> pow2 (quantum x) / 2"
proof -
  let ?p = "pow2 (quantum x)"
  have p: "0 < ?p" by (rule pow2_pos)
  have "toDouble x - x = (of_int (roundHalfEven (x / ?p)) - x / ?p) * ?p"
    using p by (simp add: toDouble_def algebra_simps)
  then have "\<bar>toDouble x - x\<bar> = \<bar>of_int (roundHalfEven (x / ?p)) - x / ?p\<bar> * ?p"
    using p by (simp add: abs_mult)
  also have "\<dots> \<le> 1 / 2 * ?p"
    using roundHalfEven_error [of "x / ?p"] p by (intro mult_right_mono) simp_all
  finally show ?thesis by simp
qed

lemma sum_of_errors:
  fixes a b e1 e2 :: real
  assumes "\<bar>a\<bar> \<le> e1 / 2" and "\<bar>b\<bar> \<le> e2 / 2"
  shows "\<bar>a - b\<bar> \<le> (e2 + e1) / 2" and "\<bar>a + b\<bar> \<le> (e2 + e1) / 2"
proof -
  show "\<bar>a - b\<bar> \<le> (e2 + e1) / 2"
    using assms abs_triangle_ineq4 [of a b] by (simp add: field_simps)
  show "\<bar>a + b\<bar> \<le> (e2 + e1) / 2"
    using assms abs_triangle_ineq [of a b] by (simp add: field_simps)
qed

text \<open>A multiple of its quantum is a double and is left as it is.\<close>

lemma toDouble_exact: "x / pow2 (quantum x) = of_int k \<Longrightarrow> toDouble x = x"
proof -
  assume k: "x / pow2 (quantum x) = of_int k"
  have p: "pow2 (quantum x) \<noteq> 0"
    using pow2_pos [of "quantum x"] by simp
  have "toDouble x = of_int k * pow2 (quantum x)"
    by (simp add: toDouble_def k roundHalfEven_of_int)
  also have "\<dots> = x"
    using k p by (simp add: field_simps)
  finally show ?thesis .
qed

section \<open>The size filter\<close>

lemmas toDouble_eval = toDouble_def quantum_def pow2_def roundHalfEven_def Let_def bits_numeral

text \<open>
  The size filter of the samples. With the default tolerance and 100 bytes the
  product is rounded to 2 and the window is from 98 to 102; with \<open>10\<^sup>9\<close> bytes
  the product is rounded to 20000000. With the tolerance one quarter and 1000
  bytes nothing is rounded; with \<open>2\<^sup>5\<^sup>3 - 1\<close> bytes the product is a double and
  the bounds are rounded.
\<close>

lemma rounding_of_default_100:
  "toDouble (defaultThreshold * 100) = 2"
  "toDouble (100 - 2) = 98"
  "toDouble (100 + 2) = 102"
  by (simp_all add: toDouble_eval defaultThreshold_def)

lemma rounding_of_default_giga:
  "toDouble (defaultThreshold * 1000000000) = 20000000"
  "toDouble (1000000000 - 20000000) = 980000000"
  "toDouble (1000000000 + 20000000) = 1020000000"
  by (simp_all add: toDouble_eval defaultThreshold_def)

lemma rounding_of_quarter_kilo:
  "toDouble (1 / 4 * 1000) = 250"
  "toDouble (1000 - 250) = 750"
  "toDouble (1000 + 250) = 1250"
  by (simp_all add: toDouble_eval)

lemma rounding_of_quarter_big:
  "toDouble (1 / 4 * 9007199254740991) = 9007199254740991 / 4"
  "toDouble (9007199254740991 - 9007199254740991 / 4) = 6755399441055743"
  "toDouble (9007199254740991 + 9007199254740991 / 4) = 11258999068426238"
  by (simp_all add: toDouble_eval)

lemma sizeDoesMatch_default_100:
  assumes "fuzzySizeThreshold env = defaultThreshold" and "length_s s = 100"
  shows "sizeDoesMatch env x s \<longleftrightarrow> 98 \<le> x \<and> x \<le> 102"
  unfolding sizeDoesMatch_def Let_def assms rounding_of_default_100 by auto

lemma sizeDoesMatch_default_giga:
  assumes "fuzzySizeThreshold env = defaultThreshold" and "length_s s = 1000000000"
  shows "sizeDoesMatch env x s \<longleftrightarrow> 980000000 \<le> x \<and> x \<le> 1020000000"
  unfolding sizeDoesMatch_def Let_def assms rounding_of_default_giga by auto

lemma sizeDoesMatch_quarter_kilo:
  assumes "fuzzySizeThreshold env = 1 / 4" and "length_s s = 1000"
  shows "sizeDoesMatch env x s \<longleftrightarrow> 750 \<le> x \<and> x \<le> 1250"
  unfolding sizeDoesMatch_def Let_def assms rounding_of_quarter_kilo by auto

lemma sizeDoesMatch_quarter_big:
  assumes "fuzzySizeThreshold env = 1 / 4" and "length_s s = 9007199254740991"
  shows "sizeDoesMatch env x s \<longleftrightarrow> 6755399441055743 \<le> x \<and> x \<le> 11258999068426238"
  unfolding sizeDoesMatch_def Let_def assms rounding_of_quarter_big by auto

text \<open>
  Claim C7 as stated fails. With \<open>L = 2\<^sup>5\<^sup>3 - 1\<close> and \<open>t = 1/4\<close>, both doubles,
  the product \<open>t * L\<close> is a double, but \<open>L - t * L\<close> ends in \<open>.25\<close> and is
  rounded down to 6755399441055743. The filter accepts the size
  6755399441055743, which is below \<open>L * (1 - t)\<close>.
\<close>

theorem sizeDoesMatch_accepts_below_exact_bound:
  "length_s bigSearchee = 9007199254740991
   \<and> fuzzySizeThreshold quarterEnv = 1 / 4
   \<and> sizeDoesMatch quarterEnv 6755399441055743 bigSearchee
   \<and> \<not> (length_s bigSearchee * (1 - fuzzySizeThreshold quarterEnv) \<le> 6755399441055743)"
  by (simp add: sizeDoesMatch_quarter_big bigSearchee_def quarterEnv_def sampleEnv_def)

text \<open>
  Claim C7, amended. With \<open>L\<close> the total length of the searchee and \<open>t\<close> the
  tolerance, the size filter accepts \<open>s\<close> if and only if \<open>lo \<le> s \<le> hi\<close>, both
  ends included, where \<open>lo\<close> and \<open>hi\<close> are the bounds as the source computes
  them: the product \<open>t * L\<close> rounded to a double, subtracted from or added to
  \<open>L\<close>, and the result rounded to a double. Each bound is off the exact
  \<open>L * (1 - t)\<close> or \<open>L * (1 + t)\<close> by at most half a quantum of the product
  plus half a quantum of the bound; and when the product, the difference and the
  sum are doubles, the filter is the closed interval from \<open>L * (1 - t)\<close> to
  \<open>L * (1 + t)\<close>.
\<close>

theorem sizeDoesMatch_rounded_bounds:
  "(sizeDoesMatch env s S \<longleftrightarrow>
      toDouble (length_s S - toDouble (fuzzySizeThreshold env * length_s S)) \<le> s
      \<and> s \<le> toDouble (length_s S + toDouble (fuzzySizeThreshold env * length_s S)))
   \<and> \<bar>toDouble (length_s S - toDouble (fuzzySizeThreshold env * length_s S))
        - length_s S * (1 - fuzzySizeThreshold env)\<bar>
      \<le> (pow2 (quantum (fuzzySizeThreshold env * length_s S))
          + pow2 (quantum (length_s S - toDouble (fuzzySizeThreshold env * length_s S)))) / 2
   \<and> \<bar>toDouble (length_s S + toDouble (fuzzySizeThreshold env * length_s S))
        - length_s S * (1 + fuzzySizeThreshold env)\<bar>
      \<le> (pow2 (quantum (fuzzySizeThreshold env * length_s S))
          + pow2 (quantum (length_s S + toDouble (fuzzySizeThreshold env * length_s S)))) / 2
   \<and> (toDouble (fuzzySizeThreshold env * length_s S) = fuzzySizeThreshold env * length_s S
        \<and> toDouble (length_s S - fuzzySizeThreshold env * length_s S)
            = length_s S - fuzzySizeThreshold env * length_s S
        \<and> toDouble (length_s S + fuzzySizeThreshold env * length_s S)
            = length_s S + fuzzySizeThreshold env * length_s S
      \<longrightarrow> (sizeDoesMatch env s S \<longleftrightarrow>
             length_s S * (1 - fuzzySizeThreshold env) \<le> s
             \<and> s \<le> length_s S * (1 + fuzzySizeThreshold env)))"
proof -
  let ?L = "length_s S" and ?t = "fuzzySizeThreshold env"
  let ?p = "toDouble (?t * ?L)"
  have 1: "sizeDoesMatch env s S \<longleftrightarrow> toDouble (?L - ?p) \<le> s \<and> s \<le> toDouble (?L + ?p)"
    by (auto simp: sizeDoesMatch_def Let_def)
  have ep: "\<bar>?p - ?t * ?L\<bar> \<le> pow2 (quantum (?t * ?L)) / 2"
    by (rule toDouble_error)
  have el: "\<bar>toDouble (?L - ?p) - (?L - ?p)\<bar> \<le> pow2 (quantum (?L - ?p)) / 2"
    by (rule toDouble_error)
  have "toDouble (?L - ?p) - ?L * (1 - ?t)
      = (toDouble (?L - ?p) - (?L - ?p)) - (?p - ?t * ?L)"
    by (simp add: algebra_simps)
  then have 2: "\<bar>toDouble (?L - ?p) - ?L * (1 - ?t)\<bar>
      \<le> (pow2 (quantum (?t * ?L)) + pow2 (quantum (?L - ?p))) / 2"
    using sum_of_errors(1) [OF el ep] by (simp only:)
  have eh: "\<bar>toDouble (?L + ?p) - (?L + ?p)\<bar> \<le> pow2 (quantum (?L + ?p)) / 2"
    by (rule toDouble_error)
  have "toDouble (?L + ?p) - ?L * (1 + ?t)
      = (toDouble (?L + ?p) - (?L + ?p)) + (?p - ?t * ?L)"
    by (simp add: algebra_simps)
  then have 3: "\<bar>toDouble (?L + ?p) - ?L * (1 + ?t)\<bar>
      \<le> (pow2 (quantum (?t * ?L)) + pow2 (quantum (?L + ?p))) / 2"
    using sum_of_errors(2) [OF eh ep] by (simp only:)
  have 4: "sizeDoesMatch env s S \<longleftrightarrow> ?L * (1 - ?t) \<le> s \<and> s \<le> ?L * (1 + ?t)"
    if "?p = ?t * ?L \<and> toDouble (?L - ?t * ?L) = ?L - ?t * ?L
        \<and> toDouble (?L + ?t * ?L) = ?L + ?t * ?L"
  proof -
    from that have a: "?p = ?t * ?L" and b: "toDouble (?L - ?t * ?L) = ?L - ?t * ?L"
      and c: "toDouble (?L + ?t * ?L) = ?L + ?t * ?L"
      by blast+
    have d: "?L * (1 - ?t) = ?L - ?t * ?L" "?L * (1 + ?t) = ?L + ?t * ?L"
      by (simp_all add: algebra_simps)
    show ?thesis unfolding 1 a b c d ..
  qed
  from 1 2 3 4 show ?thesis by blast
qed

text \<open>
  The theorem at the specification's example, \<open>10\<^sup>9\<close> bytes with the default
  tolerance: the product is rounded to 20000000 and the window is from 980000000
  to 1020000000, ends included. At 1000 bytes with the tolerance one quarter
  nothing is rounded, and the window is from \<open>1000 * (1 - 1/4)\<close> to
  \<open>1000 * (1 + 1/4)\<close>.
\<close>

theorem sizeDoesMatch_rounded_bounds_witness:
  "sizeDoesMatch sampleEnv 980000000 gigaSearchee
   \<and> \<not> sizeDoesMatch sampleEnv 979999999 gigaSearchee
   \<and> sizeDoesMatch sampleEnv 1020000000 gigaSearchee
   \<and> \<not> sizeDoesMatch sampleEnv 1020000001 gigaSearchee
   \<and> toDouble (fuzzySizeThreshold quarterEnv * length_s kiloSearchee)
       = fuzzySizeThreshold quarterEnv * length_s kiloSearchee
   \<and> toDouble (length_s kiloSearchee - fuzzySizeThreshold quarterEnv * length_s kiloSearchee)
       = length_s kiloSearchee - fuzzySizeThreshold quarterEnv * length_s kiloSearchee
   \<and> toDouble (length_s kiloSearchee + fuzzySizeThreshold quarterEnv * length_s kiloSearchee)
       = length_s kiloSearchee + fuzzySizeThreshold quarterEnv * length_s kiloSearchee
   \<and> sizeDoesMatch quarterEnv (1000 * (1 - 1 / 4)) kiloSearchee
   \<and> sizeDoesMatch quarterEnv (1000 * (1 + 1 / 4)) kiloSearchee
   \<and> \<not> sizeDoesMatch quarterEnv 749 kiloSearchee
   \<and> \<not> sizeDoesMatch quarterEnv 1251 kiloSearchee"
proof -
  have t: "fuzzySizeThreshold quarterEnv = 1 / 4" and l: "length_s kiloSearchee = 1000"
    and td: "fuzzySizeThreshold sampleEnv = defaultThreshold"
    and lg: "length_s gigaSearchee = 1000000000"
    by (simp_all add: quarterEnv_def sampleEnv_def kiloSearchee_def gigaSearchee_def)
  have e1: "toDouble (1 / 4 * 1000) = 1 / 4 * 1000"
    and e2: "toDouble (1000 - 1 / 4 * 1000) = 1000 - 1 / 4 * 1000"
    and e3: "toDouble (1000 + 1 / 4 * 1000) = 1000 + 1 / 4 * 1000"
    by (simp_all add: toDouble_eval)
  have exact: "toDouble (fuzzySizeThreshold quarterEnv * length_s kiloSearchee)
       = fuzzySizeThreshold quarterEnv * length_s kiloSearchee
   \<and> toDouble (length_s kiloSearchee - fuzzySizeThreshold quarterEnv * length_s kiloSearchee)
       = length_s kiloSearchee - fuzzySizeThreshold quarterEnv * length_s kiloSearchee
   \<and> toDouble (length_s kiloSearchee + fuzzySizeThreshold quarterEnv * length_s kiloSearchee)
       = length_s kiloSearchee + fuzzySizeThreshold quarterEnv * length_s kiloSearchee"
    unfolding t l using e1 e2 e3 by (intro conjI)
  have window: "sizeDoesMatch quarterEnv x kiloSearchee \<longleftrightarrow>
      length_s kiloSearchee * (1 - fuzzySizeThreshold quarterEnv) \<le> x
      \<and> x \<le> length_s kiloSearchee * (1 + fuzzySizeThreshold quarterEnv)" for x
    using sizeDoesMatch_rounded_bounds [of quarterEnv x kiloSearchee] exact by blast
  have k: "sizeDoesMatch quarterEnv (1000 * (1 - 1 / 4)) kiloSearchee"
    "sizeDoesMatch quarterEnv (1000 * (1 + 1 / 4)) kiloSearchee"
    "\<not> sizeDoesMatch quarterEnv 749 kiloSearchee"
    "\<not> sizeDoesMatch quarterEnv 1251 kiloSearchee"
    by (simp_all add: window t l)
  have g: "sizeDoesMatch sampleEnv 980000000 gigaSearchee"
    "\<not> sizeDoesMatch sampleEnv 979999999 gigaSearchee"
    "sizeDoesMatch sampleEnv 1020000000 gigaSearchee"
    "\<not> sizeDoesMatch sampleEnv 1020000001 gigaSearchee"
    by (simp_all add: sizeDoesMatch_default_giga [OF td lg])
  from g exact k show ?thesis by (intro conjI) blast+
qed

section \<open>The full assessment runs the stages in order\<close>

lemma assessResultHelper_staged:
  "assessResultHelper env result searchee ex w =
     (assessed env result searchee ex,
      w\<lparr>trace := trace w @ stageEvents env result searchee ex\<rparr>)"
  by (simp add: assessResultHelper_def assessed_def stageEvents_def stagedAssessment_def
        stagesEvaluated_def stages_def fetchedMetafile_def linkText_def emit_def verdict_def
        Let_def
      split: option.split)

lemma assessed_match_iff:
  "ResultAssessment.decision (assessed env r s ex) = MATCH \<longleftrightarrow> info (assessed env r s ex) \<noteq> None"
  by (simp add: assessed_def stagedAssessment_def stages_def)

lemma assessed_match_hash:
  "info (assessed env r s ex) = Some meta \<Longrightarrow> Metafile.infoHash meta \<notin> set ex"
  by (simp add: assessed_def stagedAssessment_def stages_def split: if_splits option.splits)

lemma stageEvents_all_stage: "list_all isStageEvent (stageEvents env r s ex)"
  by (simp add: stageEvents_def stagesEvaluated_def stages_def)

lemma stageEvents_size_first: "hd (stageEvents env r s ex) = Call_sizeDoesMatch"
  by (simp add: stageEvents_def stagesEvaluated_def stages_def)

lemma stageEvents_nonempty: "stageEvents env r s ex \<noteq> []"
  by (simp add: stageEvents_def stagesEvaluated_def stages_def)

lemma stageEvents_fetch:
  "list_ex isFetch (stageEvents env r s ex) \<longleftrightarrow>
     sizeDoesMatch env (Size r) s \<and> linkText r \<noteq> []"
  by (simp add: stageEvents_def stagesEvaluated_def stages_def)

text \<open>
  Claim C5. The full assessment is the staged assessment of the specification:
  its stages are, in this order, size check, download-link presence, metafile
  fetch, infoHash-exclusion check and file-tree comparison, standing for
  \<open>SIZE_MISMATCH\<close>, \<open>NO_DOWNLOAD_LINK\<close>, \<open>DOWNLOAD_FAILED\<close>,
  \<open>INFO_HASH_ALREADY_EXISTS\<close> and \<open>FILE_TREE_MISMATCH\<close>; the decision is that of
  the first stage that fails; the stages that run are those before it and itself,
  no later one; and when every stage passes the decision is \<open>MATCH\<close> with the
  fetched metafile attached. Nothing but the trace changes.
\<close>

theorem assessResultHelper_first_failing_stage:
  "map rejection (stages env result searchee ex) =
     [SIZE_MISMATCH, NO_DOWNLOAD_LINK, DOWNLOAD_FAILED, INFO_HASH_ALREADY_EXISTS,
      FILE_TREE_MISMATCH]
   \<and> map event (stages env result searchee ex) =
     [Call_sizeDoesMatch, Test_Link, Call_parseTorrentFromURL (linkText result),
      Call_includes, Call_compareFileTrees]
   \<and> assessResultHelper env result searchee ex w =
     (stagedAssessment env result (stages env result searchee ex),
      w\<lparr>trace := trace w @ map event (stagesEvaluated (stages env result searchee ex))\<rparr>)"
proof (intro conjI)
  show "map rejection (stages env result searchee ex) =
     [SIZE_MISMATCH, NO_DOWNLOAD_LINK, DOWNLOAD_FAILED, INFO_HASH_ALREADY_EXISTS,
      FILE_TREE_MISMATCH]"
    by (simp add: stages_def)
  show "map event (stages env result searchee ex) =
     [Call_sizeDoesMatch, Test_Link, Call_parseTorrentFromURL (linkText result),
      Call_includes, Call_compareFileTrees]"
    by (simp add: stages_def)
  show "assessResultHelper env result searchee ex w =
     (stagedAssessment env result (stages env result searchee ex),
      w\<lparr>trace := trace w @ map event (stagesEvaluated (stages env result searchee ex))\<rparr>)"
    using assessResultHelper_staged [of env result searchee ex w]
    by (simp add: assessed_def stageEvents_def)
qed

text \<open>
  The theorem at the sample candidate: with the download failing, three stages
  run and the decision is \<open>DOWNLOAD_FAILED\<close>; with the metafile excluded, four
  stages run; with nothing in the way all five run and the metafile is attached.
\<close>

theorem assessResultHelper_first_failing_stage_witness:
  "assessResultHelper offlineEnv sampleResult sampleSearchee [] emptyWorld =
     (verdict DOWNLOAD_FAILED,
      emptyWorld\<lparr>trace := [Call_sizeDoesMatch, Test_Link, Call_parseTorrentFromURL ''u'']\<rparr>)
   \<and> assessResultHelper sampleEnv sampleResult sampleSearchee [''h1''] emptyWorld =
     (verdict INFO_HASH_ALREADY_EXISTS,
      emptyWorld\<lparr>trace := [Call_sizeDoesMatch, Test_Link, Call_parseTorrentFromURL ''u'',
                             Call_includes]\<rparr>)
   \<and> assessResultHelper sampleEnv sampleResult sampleSearchee [] emptyWorld =
     (\<lparr>ResultAssessment.decision = MATCH, info = Some sampleMeta\<rparr>,
      emptyWorld\<lparr>trace := [Call_sizeDoesMatch, Test_Link, Call_parseTorrentFromURL ''u'',
                             Call_includes, Call_compareFileTrees]\<rparr>)"
  using assessResultHelper_first_failing_stage
          [of offlineEnv sampleResult sampleSearchee "[]" emptyWorld]
        assessResultHelper_first_failing_stage
          [of sampleEnv sampleResult sampleSearchee "[''h1'']" emptyWorld]
        assessResultHelper_first_failing_stage
          [of sampleEnv sampleResult sampleSearchee "[]" emptyWorld]
  by (simp add: stages_def stagesEvaluated_def stagedAssessment_def fetchedMetafile_def
        linkText_def sizeDoesMatch_default_100 compareFileTrees_def cmp_def verdict_def
        offlineEnv_def sampleEnv_def sampleResult_def sampleSearchee_def sampleMeta_def
        sampleFile_def emptyWorld_def)

section \<open>What one run of the engine does, case by case\<close>

lemma entryAt_partitionOf: "entryAt w n g = partitionOf w n g"
  by (simp add: entryAt_def partitionOf_def split: option.split)

lemma logReason_eq: "logReason r s d c w = w\<lparr>trace := trace w @ logEvents r s d c\<rparr>"
  by (simp add: logReason_def logEvents_def emit_def)

lemma plainAccess_iff:
  "plainAccess env w n g \<longleftrightarrow>
     (decisions w n \<noteq> None \<or> \<not> inheritedName env n)
     \<and> (entryAt w n g \<noteq> None \<or> \<not> inheritedName env g)"
  by (auto simp: plainAccess_def entryAt_def split: option.splits)

lemma plainAccess_entry: "entryAt w n g = Some e \<Longrightarrow> plainAccess env w n g"
  by (auto simp: plainAccess_def entryAt_def split: option.splits)

lemma ensurePartition_plain:
  assumes "decisions w n \<noteq> None \<or> \<not> inheritedName env n"
  shows "ensurePartition env n w = Inr (w\<lparr>decisions := (decisions w)(n \<mapsto> partitionOf w n)\<rparr>)"
  using assms
  by (cases w)
    (auto simp: ensurePartition_def readPartition_def partitionOf_def fun_upd_idem
      split: option.split)

lemma ensurePartition_inherited:
  assumes "decisions w n = None" and "inheritedName env n"
  shows "ensurePartition env n w = Inl (OffMap n)"
  using assms by (simp add: ensurePartition_def readPartition_def)

lemma readEntry_plain:
  assumes "decisions w n = Some part" and "part g \<noteq> None \<or> \<not> inheritedName env g"
  shows "readEntry env w n g = Inr (part g)"
  using assms
  by (auto simp: readEntry_def readPartition_def readProperty_def split: option.split)

lemma readEntry_inherited:
  assumes "decisions w n = Some part" and "part g = None" and "inheritedName env g"
  shows "readEntry env w n g = Inl (OffMap g)"
  using assms by (simp add: readEntry_def readPartition_def readProperty_def)

lemma putEntry_plain:
  assumes "decisions w n = Some part" and "part g \<noteq> None \<or> \<not> inheritedName env g"
  shows "putEntry env n g e w = Inr (w\<lparr>decisions := (decisions w)(n \<mapsto> part(g \<mapsto> e))\<rparr>)"
  using assms
  by (auto simp: putEntry_def readPartition_def readProperty_def split: option.split)

lemma updEntry_own:
  assumes "decisions w n = Some part" and "part g = Some e"
  shows "updEntry env n g f w = Inr (w\<lparr>decisions := (decisions w)(n \<mapsto> part(g \<mapsto> f e))\<rparr>)"
  using assms by (simp add: updEntry_def readPartition_def readProperty_def)

lemma assessAndSaveResults_eq:
  assumes "decisions w (name s) = Some part"
    and "part g \<noteq> None \<or> \<not> inheritedName env g"
  shows "assessAndSaveResults env r s g ex w =
     Inr (assessed env r s ex,
          w\<lparr>decisions := (decisions w)(name s \<mapsto> part(g \<mapsto> freshEntry env w (assessed env r s ex))),
            torrentCache := savedCache (assessed env r s ex) (torrentCache w),
            ticks := Suc (Suc (ticks w)),
            trace := trace w @ stageEvents env r s ex @ saveEvents (assessed env r s ex)\<rparr>)"
proof -
  let ?a = "assessed env r s ex"
  let ?w3 = "w\<lparr>trace := trace w @ stageEvents env r s ex, ticks := Suc (Suc (ticks w))\<rparr>"
  let ?e = "\<lparr>DecisionEntry.decision = ResultAssessment.decision ?a,
             firstSeen = clock env (Suc (ticks w)), lastSeen = clock env (ticks w),
             infoHash = None\<rparr>"
  have d3: "decisions ?w3 (name s) = Some part"
    using assms(1) by simp
  have put: "putEntry env (name s) g ?e ?w3
      = Inr (?w3\<lparr>decisions := (decisions ?w3)(name s \<mapsto> part(g \<mapsto> ?e))\<rparr>)"
    by (rule putEntry_plain [OF d3 assms(2)])
  have start: "assessAndSaveResults env r s g ex w =
      (case putEntry env (name s) g ?e ?w3 of
         Inl stop \<Rightarrow> Inl stop
       | Inr w4 \<Rightarrow>
           if ResultAssessment.decision ?a = MATCH then
             (case info ?a of
                None \<Rightarrow> Inl (Threw TypeError)
              | Some meta \<Rightarrow>
                  (case updEntry env (name s) g
                          (\<lambda>e. e\<lparr>DecisionEntry.infoHash := Some (Metafile.infoHash meta)\<rparr>) w4 of
                     Inl stop \<Rightarrow> Inl stop
                   | Inr w5 \<Rightarrow> Inr (?a, cacheTorrentFile meta w5)))
           else Inr (?a, w4))"
    by (simp add: assessAndSaveResults_def assessResultHelper_staged Date_now_def)
  show ?thesis
  proof (cases "info ?a")
    case None
    then have "ResultAssessment.decision ?a \<noteq> MATCH"
      by (simp add: assessed_match_iff)
    with None show ?thesis
      unfolding start put by (simp add: freshEntry_def saveEvents_def savedCache_def)
  next
    case (Some meta)
    then have m: "ResultAssessment.decision ?a = MATCH"
      by (simp add: assessed_match_iff)
    show ?thesis
      unfolding start put using Some m
      by (simp add: updEntry_def readPartition_def readProperty_def freshEntry_def
            saveEvents_def savedCache_def cacheTorrentFile_def emit_def)
  qed
qed

text \<open>
  The entry that a run with a full assessment leaves: the fresh entry, with
  \<open>lastSeen\<close> read from the clock once more.
\<close>

lemma run_full:
  assumes "fullAssessment (branchOf ex w (entryAt w (name s) (Guid r)))"
    and "plainAccess env w (name s) (Guid r)"
  shows "assessResultCaching env r s ex w =
     Inr (assessed env r s ex,
          w\<lparr>decisions := (decisions w)(name s \<mapsto> (partitionOf w (name s))(Guid r \<mapsto>
                (freshEntry env w (assessed env r s ex))\<lparr>lastSeen := clock env (Suc (Suc (ticks w)))\<rparr>)),
            flushed := (decisions w)(name s \<mapsto> (partitionOf w (name s))(Guid r \<mapsto>
                (freshEntry env w (assessed env r s ex))\<lparr>lastSeen := clock env (Suc (Suc (ticks w)))\<rparr>)),
            torrentCache := savedCache (assessed env r s ex) (torrentCache w),
            ticks := Suc (Suc (Suc (ticks w))),
            trace := trace w @ stageEvents env r s ex @ saveEvents (assessed env r s ex)
                     @ logEvents r s (ResultAssessment.decision (assessed env r s ex)) False
                     @ [Call_db_write]\<rparr>)"
proof -
  let ?part = "partitionOf w (name s)"
  let ?w0 = "w\<lparr>decisions := (decisions w)(name s \<mapsto> ?part)\<rparr>"
  let ?a = "assessed env r s ex"
  from assms(2) have pn: "decisions w (name s) \<noteq> None \<or> \<not> inheritedName env (name s)"
    and pg: "?part (Guid r) \<noteq> None \<or> \<not> inheritedName env (Guid r)"
    by (simp_all add: plainAccess_iff entryAt_partitionOf)
  have ens: "ensurePartition env (name s) w = Inr ?w0"
    by (rule ensurePartition_plain [OF pn])
  have part: "decisions ?w0 (name s) = Some ?part"
    by simp
  have rd: "readEntry env ?w0 (name s) (Guid r) = Inr (entryAt w (name s) (Guid r))"
    using readEntry_plain [OF part pg] by (simp add: entryAt_partitionOf)
  have dec: "decide env r s ex (entryAt w (name s) (Guid r)) ?w0 = assessAndLog env r s ex ?w0"
    using assms(1)
    by (auto simp: decide_def branchOf_def existsInTorrentCache_def
        split: option.splits if_splits)
  let ?w1 = "?w0\<lparr>decisions := (decisions ?w0)(name s \<mapsto> ?part(Guid r \<mapsto> freshEntry env ?w0 ?a)),
            torrentCache := savedCache ?a (torrentCache ?w0),
            ticks := Suc (Suc (ticks ?w0)),
            trace := (trace ?w0 @ stageEvents env r s ex @ saveEvents ?a)
                     @ logEvents r s (ResultAssessment.decision ?a) False\<rparr>"
  have al: "assessAndLog env r s ex ?w0 = Inr (?a, ?w1)"
    by (simp add: assessAndLog_def assessAndSaveResults_eq [OF part pg] logReason_eq)
  let ?w2 = "?w1\<lparr>ticks := Suc (ticks ?w1)\<rparr>"
  have upd: "updEntry env (name s) (Guid r) (\<lambda>e. e\<lparr>lastSeen := clock env (ticks ?w1)\<rparr>) ?w2
      = Inr (?w2\<lparr>decisions := (decisions ?w2)(name s \<mapsto> (?part(Guid r \<mapsto> freshEntry env ?w0 ?a))
               (Guid r \<mapsto> (freshEntry env ?w0 ?a)\<lparr>lastSeen := clock env (ticks ?w1)\<rparr>))\<rparr>)"
    by (rule updEntry_own) simp_all
  show ?thesis
    unfolding assessResultCaching_def ens sum.case rd dec al prod.case Date_now_def Let_def upd
    by (simp add: db_write_def emit_def freshEntry_def)
qed

lemma run_exclusion:
  assumes "entryAt w (name s) (Guid r) = Some ce"
    and "branchOf ex w (Some ce) = Exclusion"
  shows "assessResultCaching env r s ex w =
     Inr (verdict INFO_HASH_ALREADY_EXISTS,
          w\<lparr>decisions := (decisions w)(name s \<mapsto> (partitionOf w (name s))(Guid r \<mapsto>
                ce\<lparr>DecisionEntry.decision := INFO_HASH_ALREADY_EXISTS,
                   lastSeen := clock env (ticks w)\<rparr>)),
            flushed := (decisions w)(name s \<mapsto> (partitionOf w (name s))(Guid r \<mapsto>
                ce\<lparr>DecisionEntry.decision := INFO_HASH_ALREADY_EXISTS,
                   lastSeen := clock env (ticks w)\<rparr>)),
            ticks := Suc (ticks w),
            trace := trace w @ [Call_db_write]\<rparr>)"
proof -
  let ?part = "partitionOf w (name s)"
  let ?w0 = "w\<lparr>decisions := (decisions w)(name s \<mapsto> ?part)\<rparr>"
  have pg: "?part (Guid r) = Some ce"
    using assms(1) by (simp add: entryAt_partitionOf)
  have pn: "decisions w (name s) \<noteq> None \<or> \<not> inheritedName env (name s)"
    using assms(1) by (auto simp: entryAt_def split: option.splits)
  have ens: "ensurePartition env (name s) w = Inr ?w0"
    by (rule ensurePartition_plain [OF pn])
  have part: "decisions ?w0 (name s) = Some ?part"
    by simp
  have rd: "readEntry env ?w0 (name s) (Guid r) = Inr (Some ce)"
    using readEntry_plain [OF part, of "Guid r" env] pg by simp
  let ?w1 = "?w0\<lparr>decisions := (decisions ?w0)(name s \<mapsto> ?part(Guid r \<mapsto>
              ce\<lparr>DecisionEntry.decision := INFO_HASH_ALREADY_EXISTS\<rparr>))\<rparr>"
  have flip: "updEntry env (name s) (Guid r)
      (\<lambda>e. e\<lparr>DecisionEntry.decision := INFO_HASH_ALREADY_EXISTS\<rparr>) ?w0 = Inr ?w1"
    by (rule updEntry_own [OF part pg])
  have dec: "decide env r s ex (Some ce) ?w0 = Inr (verdict INFO_HASH_ALREADY_EXISTS, ?w1)"
    using assms(2)
    by (auto simp: decide_def branchOf_def flip split: if_splits)
  let ?w2 = "?w1\<lparr>ticks := Suc (ticks ?w1)\<rparr>"
  have upd: "updEntry env (name s) (Guid r) (\<lambda>e. e\<lparr>lastSeen := clock env (ticks ?w1)\<rparr>) ?w2
      = Inr (?w2\<lparr>decisions := (decisions ?w2)(name s \<mapsto>
               (?part(Guid r \<mapsto> ce\<lparr>DecisionEntry.decision := INFO_HASH_ALREADY_EXISTS\<rparr>))
               (Guid r \<mapsto> (ce\<lparr>DecisionEntry.decision := INFO_HASH_ALREADY_EXISTS\<rparr>)
                  \<lparr>lastSeen := clock env (ticks ?w1)\<rparr>))\<rparr>)"
    by (rule updEntry_own) simp_all
  show ?thesis
    unfolding assessResultCaching_def ens sum.case rd dec prod.case Date_now_def Let_def upd
    by (simp add: db_write_def emit_def)
qed

lemma run_cachedMatch:
  assumes "entryAt w (name s) (Guid r) = Some ce"
    and "branchOf ex w (Some ce) = CachedMatch"
  shows "assessResultCaching env r s ex w =
     Inr (\<lparr>ResultAssessment.decision = MATCH,
            info = torrentCache w (cacheKey (DecisionEntry.infoHash ce))\<rparr>,
          w\<lparr>decisions := (decisions w)(name s \<mapsto> (partitionOf w (name s))(Guid r \<mapsto>
                ce\<lparr>lastSeen := clock env (ticks w)\<rparr>)),
            flushed := (decisions w)(name s \<mapsto> (partitionOf w (name s))(Guid r \<mapsto>
                ce\<lparr>lastSeen := clock env (ticks w)\<rparr>)),
            ticks := Suc (ticks w),
            trace := trace w @ [Call_getCachedTorrentFile (cacheKey (DecisionEntry.infoHash ce)),
                                Call_db_write]\<rparr>)"
proof -
  let ?part = "partitionOf w (name s)"
  let ?w0 = "w\<lparr>decisions := (decisions w)(name s \<mapsto> ?part)\<rparr>"
  let ?k = "cacheKey (DecisionEntry.infoHash ce)"
  have pg: "?part (Guid r) = Some ce"
    using assms(1) by (simp add: entryAt_partitionOf)
  have pn: "decisions w (name s) \<noteq> None \<or> \<not> inheritedName env (name s)"
    using assms(1) by (auto simp: entryAt_def split: option.splits)
  have ens: "ensurePartition env (name s) w = Inr ?w0"
    by (rule ensurePartition_plain [OF pn])
  have part: "decisions ?w0 (name s) = Some ?part"
    by simp
  have rd: "readEntry env ?w0 (name s) (Guid r) = Inr (Some ce)"
    using readEntry_plain [OF part, of "Guid r" env] pg by simp
  from assms(2) obtain meta where
    m: "torrentCache w ?k = Some meta"
    and d: "DecisionEntry.decision ce = MATCH"
    and i: "\<not> includes_js ex (DecisionEntry.infoHash ce)"
    by (auto simp: branchOf_def existsInTorrentCache_def split: if_splits)
  let ?w1 = "emit (Call_getCachedTorrentFile ?k) ?w0"
  have dec: "decide env r s ex (Some ce) ?w0 =
      Inr (\<lparr>ResultAssessment.decision = MATCH, info = Some meta\<rparr>, ?w1)"
    using m d i by (simp add: decide_def existsInTorrentCache_def getCachedTorrentFile_def)
  let ?w2 = "?w1\<lparr>ticks := Suc (ticks ?w1)\<rparr>"
  have upd: "updEntry env (name s) (Guid r) (\<lambda>e. e\<lparr>lastSeen := clock env (ticks ?w1)\<rparr>) ?w2
      = Inr (?w2\<lparr>decisions := (decisions ?w2)(name s \<mapsto>
               ?part(Guid r \<mapsto> ce\<lparr>lastSeen := clock env (ticks ?w1)\<rparr>))\<rparr>)"
    by (rule updEntry_own) (simp_all add: emit_def pg)
  show ?thesis
    unfolding assessResultCaching_def ens sum.case rd dec prod.case Date_now_def Let_def upd
    by (simp add: db_write_def emit_def m)
qed

lemma run_cachedRejection:
  assumes "entryAt w (name s) (Guid r) = Some ce"
    and "branchOf ex w (Some ce) = CachedRejection"
  shows "assessResultCaching env r s ex w =
     Inr (verdict (DecisionEntry.decision ce),
          w\<lparr>decisions := (decisions w)(name s \<mapsto> (partitionOf w (name s))(Guid r \<mapsto>
                ce\<lparr>lastSeen := clock env (ticks w)\<rparr>)),
            flushed := (decisions w)(name s \<mapsto> (partitionOf w (name s))(Guid r \<mapsto>
                ce\<lparr>lastSeen := clock env (ticks w)\<rparr>)),
            ticks := Suc (ticks w),
            trace := trace w @ logEvents r s (DecisionEntry.decision ce) True @ [Call_db_write]\<rparr>)"
proof -
  let ?part = "partitionOf w (name s)"
  let ?w0 = "w\<lparr>decisions := (decisions w)(name s \<mapsto> ?part)\<rparr>"
  have pg: "?part (Guid r) = Some ce"
    using assms(1) by (simp add: entryAt_partitionOf)
  have pn: "decisions w (name s) \<noteq> None \<or> \<not> inheritedName env (name s)"
    using assms(1) by (auto simp: entryAt_def split: option.splits)
  have ens: "ensurePartition env (name s) w = Inr ?w0"
    by (rule ensurePartition_plain [OF pn])
  have part: "decisions ?w0 (name s) = Some ?part"
    by simp
  have rd: "readEntry env ?w0 (name s) (Guid r) = Inr (Some ce)"
    using readEntry_plain [OF part, of "Guid r" env] pg by simp
  from assms(2) have d: "DecisionEntry.decision ce \<noteq> MATCH"
    "DecisionEntry.decision ce \<noteq> DOWNLOAD_FAILED"
    by (auto simp: branchOf_def split: if_splits)
  let ?w1 = "logReason r s (DecisionEntry.decision ce) True ?w0"
  have dec: "decide env r s ex (Some ce) ?w0 = Inr (verdict (DecisionEntry.decision ce), ?w1)"
    using d by (simp add: decide_def)
  let ?w2 = "?w1\<lparr>ticks := Suc (ticks ?w1)\<rparr>"
  have upd: "updEntry env (name s) (Guid r) (\<lambda>e. e\<lparr>lastSeen := clock env (ticks ?w1)\<rparr>) ?w2
      = Inr (?w2\<lparr>decisions := (decisions ?w2)(name s \<mapsto>
               ?part(Guid r \<mapsto> ce\<lparr>lastSeen := clock env (ticks ?w1)\<rparr>))\<rparr>)"
    by (rule updEntry_own) (simp_all add: logReason_eq pg)
  show ?thesis
    unfolding assessResultCaching_def ens sum.case rd dec prod.case Date_now_def Let_def upd
    by (simp add: db_write_def emit_def logReason_eq)
qed

text \<open>Every run falls under one of the four descriptions.\<close>

lemma branch_cases:
  obtains
    (full) "fullAssessment (branchOf ex w (entryAt w n g))"
  | (exclusion) ce where "entryAt w n g = Some ce" "branchOf ex w (Some ce) = Exclusion"
  | (cachedMatch) ce where "entryAt w n g = Some ce" "branchOf ex w (Some ce) = CachedMatch"
  | (cachedRejection) ce where "entryAt w n g = Some ce"
      "branchOf ex w (Some ce) = CachedRejection"
proof (cases "entryAt w n g")
  case None
  then have "fullAssessment (branchOf ex w (entryAt w n g))"
    by (simp add: branchOf_def)
  then show ?thesis by (rule full)
next
  case (Some ce)
  show ?thesis
  proof (cases "branchOf ex w (Some ce)")
    case NoEntry
    with Some full show ?thesis by simp
  next
    case RetryDownload
    with Some full show ?thesis by simp
  next
    case Exclusion
    with Some exclusion show ?thesis by simp
  next
    case CachedMatch
    with Some cachedMatch show ?thesis by simp
  next
    case Regenerate
    with Some full show ?thesis by simp
  next
    case CachedRejection
    with Some cachedRejection show ?thesis by simp
  qed
qed

text \<open>
  A run returns an assessment exactly when its reads and writes stay within the
  decision cache; otherwise the model stops at the inherited name.
\<close>

lemma run_returns:
  assumes "plainAccess env w (name s) (Guid r)"
  shows "\<exists>a w'. assessResultCaching env r s ex w = Inr (a, w')"
proof (cases rule: branch_cases [of ex w "name s" "Guid r"])
  case full
  then show ?thesis by (simp add: run_full [OF _ assms])
next
  case (exclusion ce)
  then show ?thesis by (simp add: run_exclusion)
next
  case (cachedMatch ce)
  then show ?thesis by (simp add: run_cachedMatch)
next
  case (cachedRejection ce)
  then show ?thesis by (simp add: run_cachedRejection)
qed

lemma run_off_map:
  assumes "\<not> plainAccess env w (name s) (Guid r)"
  shows "\<exists>k. inheritedName env k \<and> assessResultCaching env r s ex w = Inl (OffMap k)"
proof (cases "decisions w (name s)")
  case None
  show ?thesis
  proof (cases "inheritedName env (name s)")
    case True
    then show ?thesis
      by (auto simp: assessResultCaching_def ensurePartition_inherited [OF None])
  next
    case False
    with assms None have g: "inheritedName env (Guid r)"
      by (simp add: plainAccess_def)
    let ?w0 = "w\<lparr>decisions := (decisions w)(name s \<mapsto> partitionOf w (name s))\<rparr>"
    have ens: "ensurePartition env (name s) w = Inr ?w0"
      using False by (intro ensurePartition_plain) simp
    have "readEntry env ?w0 (name s) (Guid r) = Inl (OffMap (Guid r))"
      using None g by (intro readEntry_inherited [of _ _ "partitionOf w (name s)"])
        (simp_all add: partitionOf_def)
    with g show ?thesis
      by (auto simp: assessResultCaching_def ens)
  qed
next
  case (Some part)
  with assms have pg: "part (Guid r) = None" and g: "inheritedName env (Guid r)"
    by (auto simp: plainAccess_def split: option.splits)
  let ?w0 = "w\<lparr>decisions := (decisions w)(name s \<mapsto> partitionOf w (name s))\<rparr>"
  have ens: "ensurePartition env (name s) w = Inr ?w0"
    using Some by (intro ensurePartition_plain) simp
  have "readEntry env ?w0 (name s) (Guid r) = Inl (OffMap (Guid r))"
    using Some pg g by (intro readEntry_inherited [of _ _ "partitionOf w (name s)"])
      (simp_all add: partitionOf_def)
  with g show ?thesis
    by (auto simp: assessResultCaching_def ens)
qed

lemma run_plain:
  assumes "assessResultCaching env r s ex w = Inr (a, w')"
  shows "plainAccess env w (name s) (Guid r)"
  using assms run_off_map [of env w s r ex] by auto

text \<open>
  A run that returns changes the decisions at its key and nowhere else, the
  entry written there has the last clock reading as \<open>lastSeen\<close>, and the flushed
  copy is the memory copy.
\<close>

lemma run_decisions:
  assumes "assessResultCaching env r s ex w = Inr (a, w')"
  shows "\<exists>e'. decisions w' = (decisions w)(name s \<mapsto> (partitionOf w (name s))(Guid r \<mapsto> e'))
           \<and> flushed w' = decisions w'
           \<and> lastSeen e' = clock env (ticks w' - 1)
           \<and> ticks w < ticks w'"
proof (cases rule: branch_cases [of ex w "name s" "Guid r"])
  case full
  with assms show ?thesis by (auto simp: run_full [OF _ run_plain [OF assms]])
next
  case (exclusion ce)
  with assms show ?thesis by (auto simp: run_exclusion)
next
  case (cachedMatch ce)
  with assms show ?thesis by (auto simp: run_cachedMatch)
next
  case (cachedRejection ce)
  with assms show ?thesis by (auto simp: run_cachedRejection)
qed

lemma entryAt_upd_same:
  "decisions w' = (decisions w)(n \<mapsto> part(g \<mapsto> e)) \<Longrightarrow> entryAt w' n g = Some e"
  by (simp add: entryAt_def)

lemma entryAt_upd_other:
  "decisions w' = (decisions w)(n \<mapsto> (partitionOf w n)(g \<mapsto> e)) \<Longrightarrow> (n', g') \<noteq> (n, g)
     \<Longrightarrow> entryAt w' n' g' = entryAt w n' g'"
  by (auto simp: entryAt_def partitionOf_def split: option.splits)

text \<open>
  So a run that returns leaves the entry of every other key, and the partition
  of every other searchee name, as it was.
\<close>

lemma run_frame:
  assumes "assessResultCaching env r s ex w = Inr (a, w')"
  shows "(\<forall>n' g'. (n', g') \<noteq> (name s, Guid r) \<longrightarrow> entryAt w' n' g' = entryAt w n' g')
         \<and> (\<forall>n'. n' \<noteq> name s \<longrightarrow> decisions w' n' = decisions w n')
         \<and> decisions w' (name s) \<noteq> None"
proof -
  from run_decisions [OF assms] obtain e' where
    d: "decisions w' = (decisions w)(name s \<mapsto> (partitionOf w (name s))(Guid r \<mapsto> e'))"
    by blast
  have "\<forall>n' g'. (n', g') \<noteq> (name s, Guid r) \<longrightarrow> entryAt w' n' g' = entryAt w n' g'"
    using entryAt_upd_other [OF d] by blast
  moreover have "\<forall>n'. n' \<noteq> name s \<longrightarrow> decisions w' n' = decisions w n'"
    by (simp add: d)
  moreover have "decisions w' (name s) \<noteq> None"
    by (simp add: d)
  ultimately show ?thesis by blast
qed

lemmas run_eval =
  assessResultCaching_def decide_def assessAndLog_def assessAndSaveResults_def
  assessResultHelper_def ensurePartition_def readEntry_def readPartition_def readProperty_def
  entryAt_def updEntry_def putEntry_def Date_now_def db_write_def emit_def logReason_def
  verdict_def includes_js_def existsInTorrentCache_def getCachedTorrentFile_def cacheKey_def
  cacheTorrentFile_def compareFileTrees_def cmp_def builtinName_def Let_def

section \<open>The exclusion transition\<close>

text \<open>
  Claim C2. When the cache holds a \<open>MATCH\<close> for the pair and the infoHash stored
  with it is in the exclusion set of the caller, the engine returns
  \<open>INFO_HASH_ALREADY_EXISTS\<close>, stores that decision in the entry, and appends
  nothing to the trace but the flush: \<open>parseTorrentFromURL\<close> is not called.
\<close>

theorem exclusion_transition:
  assumes "entryAt w (name s) (Guid r) = Some ce"
    and "DecisionEntry.decision ce = MATCH"
    and "DecisionEntry.infoHash ce = Some h"
    and "h \<in> set ex"
  shows "\<exists>w'. assessResultCaching env r s ex w = Inr (verdict INFO_HASH_ALREADY_EXISTS, w')
           \<and> entryAt w' (name s) (Guid r) =
               Some (ce\<lparr>DecisionEntry.decision := INFO_HASH_ALREADY_EXISTS,
                        lastSeen := clock env (ticks w)\<rparr>)
           \<and> newEvents w w' = [Call_db_write]
           \<and> \<not> list_ex isFetch (newEvents w w')"
proof -
  have b: "branchOf ex w (Some ce) = Exclusion"
    using assms(2-4) by (simp add: branchOf_def includes_js_def)
  show ?thesis
    by (simp add: run_exclusion [OF assms(1) b] entryAt_def newEvents_def)
qed

text \<open>
  The theorem at a cached match for \<open>h1\<close>, with \<open>h1\<close> excluded, in surroundings
  where a download would have succeeded.
\<close>

theorem exclusion_transition_witness:
  "entryAt (worldWith (entryOf MATCH (Some ''h1'')) Map.empty) ''S'' ''g''
     = Some (entryOf MATCH (Some ''h1''))
   \<and> ''h1'' \<in> set [''h1'']
   \<and> decisionOf (assessResultCaching sampleEnv sampleResult sampleSearchee [''h1'']
        (worldWith (entryOf MATCH (Some ''h1'')) Map.empty)) = Some INFO_HASH_ALREADY_EXISTS
   \<and> map_option DecisionEntry.decision
        (entryAfter (assessResultCaching sampleEnv sampleResult sampleSearchee [''h1'']
           (worldWith (entryOf MATCH (Some ''h1'')) Map.empty)) ''S'' ''g'')
       = Some INFO_HASH_ALREADY_EXISTS
   \<and> eventsOf (worldWith (entryOf MATCH (Some ''h1'')) Map.empty)
        (assessResultCaching sampleEnv sampleResult sampleSearchee [''h1'']
           (worldWith (entryOf MATCH (Some ''h1'')) Map.empty)) = Some [Call_db_write]"
proof -
  have e: "entryAt (worldWith (entryOf MATCH (Some ''h1'')) Map.empty)
             (name sampleSearchee) (Guid sampleResult) = Some (entryOf MATCH (Some ''h1''))"
    by (simp add: entryAt_def worldWith_def sampleSearchee_def sampleResult_def)
  have d: "DecisionEntry.decision (entryOf MATCH (Some ''h1'')) = MATCH"
    and i: "DecisionEntry.infoHash (entryOf MATCH (Some ''h1'')) = Some ''h1''"
    by (simp_all add: entryOf_def)
  have x: "''h1'' \<in> set [''h1'']" by simp
  from exclusion_transition [OF e d i x, of sampleEnv] e x show ?thesis
    by (auto simp: decisionOf_def entryAfter_def eventsOf_def verdict_def
          sampleSearchee_def sampleResult_def)
qed

section \<open>The time stamps of the entry\<close>

text \<open>
  Claim C1 as stated fails: \<open>firstSeen\<close> is not written in case 1 only. Here the
  cache holds a \<open>DOWNLOAD_FAILED\<close> entry first seen at 5 (case 2); the download
  fails again, and the entry is first seen at 101 afterwards.
\<close>

theorem firstSeen_rewritten_on_retry:
  "branchOf [] (worldWith (entryOf DOWNLOAD_FAILED None) Map.empty)
      (entryAt (worldWith (entryOf DOWNLOAD_FAILED None) Map.empty) ''S'' ''g'') = RetryDownload
   \<and> map_option firstSeen
        (entryAt (worldWith (entryOf DOWNLOAD_FAILED None) Map.empty) ''S'' ''g'') = Some 5
   \<and> decisionOf (assessResultCaching offlineEnv sampleResult sampleSearchee []
        (worldWith (entryOf DOWNLOAD_FAILED None) Map.empty)) = Some DOWNLOAD_FAILED
   \<and> map_option firstSeen
        (entryAfter (assessResultCaching offlineEnv sampleResult sampleSearchee []
           (worldWith (entryOf DOWNLOAD_FAILED None) Map.empty)) ''S'' ''g'') = Some 101"
  by (simp add: run_eval sizeDoesMatch_default_100 branchOf_def decisionOf_def entryAfter_def
        worldWith_def entryOf_def offlineEnv_def sampleResult_def sampleSearchee_def)

text \<open>
  Claim C1, amended. Let the reads and writes of the run stay within the
  decision cache: where the cache has no property of its own for the searchee
  name or the guid, that key is not a name that objects inherit (what the source
  does for such keys is left out here). Then the run returns, leaves an entry
  for the pair, sets its \<open>lastSeen\<close> to the last reading of the clock and then
  flushes: the flushed copy is the memory copy. \<open>firstSeen\<close> is written, with
  the clock reading taken when the entry is written, whenever the full assessment
  runs, which is in the cases 1, 2 and 5; in the cases 3, 4 and 6 it keeps the
  stored value.
\<close>

theorem lastSeen_every_run_firstSeen_on_full_assessment:
  assumes "plainAccess env w (name s) (Guid r)"
  shows "\<exists>a w' e'. assessResultCaching env r s ex w = Inr (a, w')
     \<and> entryAt w' (name s) (Guid r) = Some e'
     \<and> flushed w' = decisions w'
     \<and> ticks w < ticks w'
     \<and> lastSeen e' = clock env (ticks w' - 1)
     \<and> (if fullAssessment (branchOf ex w (entryAt w (name s) (Guid r)))
         then firstSeen e' = clock env (Suc (ticks w))
         else map_option firstSeen (entryAt w (name s) (Guid r)) = Some (firstSeen e'))"
proof (cases rule: branch_cases [of ex w "name s" "Guid r"])
  case full
  then show ?thesis
    by (simp add: run_full [OF _ assms] entryAt_def freshEntry_def)
next
  case (exclusion ce)
  then show ?thesis
    by (simp add: run_exclusion entryAt_def)
next
  case (cachedMatch ce)
  then show ?thesis
    by (simp add: run_cachedMatch entryAt_def)
next
  case (cachedRejection ce)
  then show ?thesis
    by (simp add: run_cachedRejection entryAt_def)
qed

text \<open>
  The theorem at a cached \<open>FILE_TREE_MISMATCH\<close> first seen at 5 (case 6): it is
  still first seen at 5, and last seen at 100, the one clock reading of the run.
  At the empty cache (case 1) the match is first seen at 101 and last seen at 102.
\<close>

theorem lastSeen_every_run_firstSeen_on_full_assessment_witness:
  "plainAccess sampleEnv (worldWith (entryOf FILE_TREE_MISMATCH None) Map.empty) ''S'' ''g''
   \<and> entryAfter (assessResultCaching sampleEnv sampleResult sampleSearchee []
       (worldWith (entryOf FILE_TREE_MISMATCH None) Map.empty)) ''S'' ''g''
     = Some \<lparr>DecisionEntry.decision = FILE_TREE_MISMATCH, firstSeen = 5, lastSeen = 100,
             infoHash = None\<rparr>
   \<and> plainAccess sampleEnv emptyWorld ''S'' ''g''
   \<and> entryAfter (assessResultCaching sampleEnv sampleResult sampleSearchee [] emptyWorld)
       ''S'' ''g''
     = Some \<lparr>DecisionEntry.decision = MATCH, firstSeen = 101, lastSeen = 102,
             infoHash = Some ''h1''\<rparr>"
proof -
  have p1: "plainAccess sampleEnv (worldWith (entryOf FILE_TREE_MISMATCH None) Map.empty)
      (name sampleSearchee) (Guid sampleResult)"
    and p2: "plainAccess sampleEnv emptyWorld (name sampleSearchee) (Guid sampleResult)"
    by (simp_all add: plainAccess_def worldWith_def emptyWorld_def sampleEnv_def
          builtinName_def sampleSearchee_def sampleResult_def)
  from p1 p2
    lastSeen_every_run_firstSeen_on_full_assessment [OF p1, of "[]"]
    lastSeen_every_run_firstSeen_on_full_assessment [OF p2, of "[]"]
  show ?thesis
    by (simp add: run_eval sizeDoesMatch_default_100 branchOf_def entryAfter_def plainAccess_def
          worldWith_def entryOf_def emptyWorld_def sampleEnv_def sampleResult_def
          sampleSearchee_def sampleMeta_def sampleFile_def)
qed

section \<open>The infoHash of the entry\<close>

text \<open>
  Claim C4 as stated fails: an entry that was a \<open>MATCH\<close> does not always keep its
  infoHash. Here the cache holds a \<open>MATCH\<close> with infoHash \<open>h1\<close> whose torrent file
  is gone (case 5); the candidate is now announced with a size outside the
  tolerance, and the entry written by the re-assessment has no infoHash.
\<close>

theorem infoHash_dropped_on_reassessment:
  "entryAt (worldWith (entryOf MATCH (Some ''h1'')) Map.empty) ''S'' ''g''
     = Some \<lparr>DecisionEntry.decision = MATCH, firstSeen = 5, lastSeen = 6,
             infoHash = Some ''h1''\<rparr>
   \<and> entryAfter (assessResultCaching sampleEnv smallResult sampleSearchee []
        (worldWith (entryOf MATCH (Some ''h1'')) Map.empty)) ''S'' ''g''
     = Some \<lparr>DecisionEntry.decision = SIZE_MISMATCH, firstSeen = 101, lastSeen = 102,
             infoHash = None\<rparr>"
  by (simp add: run_eval sizeDoesMatch_default_100 entryAfter_def worldWith_def entryOf_def
        sampleEnv_def smallResult_def sampleSearchee_def)

text \<open>
  Claim C4, amended. Let the reads and writes of the run stay within the
  decision cache: where the cache has no property of its own for the searchee
  name or the guid, that key is not a name that objects inherit (what the source
  does for such keys is left out here). Then the run returns and leaves an entry
  for the pair. When the
  full assessment ran (cases 1, 2 and 5) the entry is a new one: its decision is
  the assessment's, and it has an infoHash exactly when that decision is
  \<open>MATCH\<close>, namely the infoHash of the fetched metafile; whatever infoHash the old
  entry had is gone. In the cases 3, 4 and 6 the entry keeps the infoHash field
  it had, set or not; in particular a \<open>MATCH\<close> turned into
  \<open>INFO_HASH_ALREADY_EXISTS\<close> keeps it. If every \<open>MATCH\<close> entry of the cache had
  an infoHash before the run, every \<open>MATCH\<close> entry has one after it.
\<close>

theorem infoHash_after_run:
  assumes "plainAccess env w (name s) (Guid r)"
  shows "\<exists>a w' e'. assessResultCaching env r s ex w = Inr (a, w')
     \<and> entryAt w' (name s) (Guid r) = Some e'
     \<and> (if fullAssessment (branchOf ex w (entryAt w (name s) (Guid r)))
         then DecisionEntry.decision e' = ResultAssessment.decision a
              \<and> DecisionEntry.infoHash e' = map_option Metafile.infoHash (info a)
              \<and> info a = (if ResultAssessment.decision a = MATCH
                           then fetchedMetafile env r else None)
              \<and> (DecisionEntry.decision e' = MATCH) = (DecisionEntry.infoHash e' \<noteq> None)
         else map_option DecisionEntry.infoHash (entryAt w (name s) (Guid r))
                = Some (DecisionEntry.infoHash e'))
     \<and> ((\<forall>n' g' e. entryAt w n' g' = Some e \<longrightarrow> DecisionEntry.decision e = MATCH
             \<longrightarrow> DecisionEntry.infoHash e \<noteq> None)
          \<longrightarrow> (\<forall>n' g' e. entryAt w' n' g' = Some e \<longrightarrow> DecisionEntry.decision e = MATCH
             \<longrightarrow> DecisionEntry.infoHash e \<noteq> None))"
proof -
  let ?full = "fullAssessment (branchOf ex w (entryAt w (name s) (Guid r)))"
  obtain a w' where run: "assessResultCaching env r s ex w = Inr (a, w')"
    using run_returns [OF assms] by blast
  from run_decisions [OF run] obtain e' where
    d: "decisions w' = (decisions w)(name s \<mapsto> (partitionOf w (name s))(Guid r \<mapsto> e'))"
    by blast
  have here: "entryAt w' (name s) (Guid r) = Some e'"
    using d by (rule entryAt_upd_same)
  have fetched: "info (assessed env r s ex) =
      (if ResultAssessment.decision (assessed env r s ex) = MATCH
       then fetchedMetafile env r else None)"
    by (simp add: assessed_def stagedAssessment_def stages_def)
  have fresh: "DecisionEntry.decision e' = ResultAssessment.decision a
          \<and> DecisionEntry.infoHash e' = map_option Metafile.infoHash (info a)
          \<and> info a = (if ResultAssessment.decision a = MATCH
                       then fetchedMetafile env r else None)
          \<and> (DecisionEntry.decision e' = MATCH) = (DecisionEntry.infoHash e' \<noteq> None)"
    if full: ?full
  proof -
    from run full have a: "a = assessed env r s ex"
      and w': "entryAt w' (name s) (Guid r) =
        Some ((freshEntry env w (assessed env r s ex))
                \<lparr>lastSeen := clock env (Suc (Suc (ticks w)))\<rparr>)"
      by (auto simp: run_full [OF _ assms] entryAt_def)
    from w' here have e': "e' = (freshEntry env w (assessed env r s ex))
                \<lparr>lastSeen := clock env (Suc (Suc (ticks w)))\<rparr>"
      by simp
    have 1: "DecisionEntry.decision e' = ResultAssessment.decision a"
      and 2: "DecisionEntry.infoHash e' = map_option Metafile.infoHash (info a)"
      by (simp_all add: e' a freshEntry_def)
    have 3: "info a = (if ResultAssessment.decision a = MATCH
                       then fetchedMetafile env r else None)"
      unfolding a by (rule fetched)
    have 4: "(DecisionEntry.decision e' = MATCH) = (DecisionEntry.infoHash e' \<noteq> None)"
      unfolding 1 2 a by (simp add: assessed_match_iff)
    from 1 2 3 4 show ?thesis by blast
  qed
  have kept: "\<exists>ce. entryAt w (name s) (Guid r) = Some ce
          \<and> DecisionEntry.infoHash e' = DecisionEntry.infoHash ce
          \<and> (DecisionEntry.decision e' = MATCH \<longrightarrow> DecisionEntry.decision ce = MATCH)"
    if nfull: "\<not> ?full"
  proof (cases rule: branch_cases [of ex w "name s" "Guid r"])
    case full
    with nfull show ?thesis by simp
  next
    case (exclusion ce)
    with run have "entryAt w' (name s) (Guid r) =
        Some (ce\<lparr>DecisionEntry.decision := INFO_HASH_ALREADY_EXISTS,
                 lastSeen := clock env (ticks w)\<rparr>)"
      by (auto simp: run_exclusion entryAt_def)
    with here exclusion show ?thesis by auto
  next
    case (cachedMatch ce)
    with run have "entryAt w' (name s) (Guid r) = Some (ce\<lparr>lastSeen := clock env (ticks w)\<rparr>)"
      by (auto simp: run_cachedMatch entryAt_def)
    with here cachedMatch show ?thesis by auto
  next
    case (cachedRejection ce)
    with run have "entryAt w' (name s) (Guid r) = Some (ce\<lparr>lastSeen := clock env (ticks w)\<rparr>)"
      by (auto simp: run_cachedRejection entryAt_def)
    with here cachedRejection show ?thesis by auto
  qed
  have inv: "\<forall>n' g' e. entryAt w' n' g' = Some e \<longrightarrow> DecisionEntry.decision e = MATCH
             \<longrightarrow> DecisionEntry.infoHash e \<noteq> None"
    if before: "\<forall>n' g' e. entryAt w n' g' = Some e \<longrightarrow> DecisionEntry.decision e = MATCH
             \<longrightarrow> DecisionEntry.infoHash e \<noteq> None"
  proof (intro allI impI)
    fix n' g' e
    assume e: "entryAt w' n' g' = Some e" and m: "DecisionEntry.decision e = MATCH"
    show "DecisionEntry.infoHash e \<noteq> None"
    proof (cases "(n', g') = (name s, Guid r)")
      case True
      with e here have ee: "e = e'" by simp
      show ?thesis
      proof (cases ?full)
        case True
        from fresh [OF True] m ee show ?thesis by blast
      next
        case False
        from kept [OF False] m ee obtain ce where
          "entryAt w (name s) (Guid r) = Some ce" "DecisionEntry.decision ce = MATCH"
          "DecisionEntry.infoHash ce = DecisionEntry.infoHash e"
          by auto
        with before show ?thesis by metis
      qed
    next
      case False
      with e entryAt_upd_other [OF d] have "entryAt w n' g' = Some e" by simp
      with before m show ?thesis by blast
    qed
  qed
  have shape:
    "if ?full
     then DecisionEntry.decision e' = ResultAssessment.decision a
          \<and> DecisionEntry.infoHash e' = map_option Metafile.infoHash (info a)
          \<and> info a = (if ResultAssessment.decision a = MATCH
                       then fetchedMetafile env r else None)
          \<and> (DecisionEntry.decision e' = MATCH) = (DecisionEntry.infoHash e' \<noteq> None)
     else map_option DecisionEntry.infoHash (entryAt w (name s) (Guid r))
            = Some (DecisionEntry.infoHash e')"
  proof (cases ?full)
    case True
    show ?thesis unfolding if_P [OF True] by (rule fresh [OF True])
  next
    case False
    from kept [OF False] have k: "map_option DecisionEntry.infoHash (entryAt w (name s) (Guid r))
            = Some (DecisionEntry.infoHash e')"
      by auto
    show ?thesis unfolding if_not_P [OF False] by (rule k)
  qed
  from run here shape inv show ?thesis by blast
qed

text \<open>
  The theorem at a cached match for \<open>h1\<close> with \<open>h1\<close> excluded (case 3): no
  \<open>MATCH\<close> entry lacks an infoHash before, the entry becomes
  \<open>INFO_HASH_ALREADY_EXISTS\<close> and keeps \<open>h1\<close>, and no \<open>MATCH\<close> entry lacks an
  infoHash after. At the empty cache (case 1) the match is stored with the
  infoHash of the fetched metafile.
\<close>

theorem infoHash_after_run_witness:
  "plainAccess sampleEnv (worldWith (entryOf MATCH (Some ''h1'')) Map.empty) ''S'' ''g''
   \<and> \<not> (\<exists>n' g' e. entryAt (worldWith (entryOf MATCH (Some ''h1'')) Map.empty) n' g' = Some e
          \<and> DecisionEntry.decision e = MATCH \<and> DecisionEntry.infoHash e = None)
   \<and> entryAfter (assessResultCaching sampleEnv sampleResult sampleSearchee [''h1'']
        (worldWith (entryOf MATCH (Some ''h1'')) Map.empty)) ''S'' ''g''
     = Some \<lparr>DecisionEntry.decision = INFO_HASH_ALREADY_EXISTS, firstSeen = 5, lastSeen = 100,
             infoHash = Some ''h1''\<rparr>
   \<and> \<not> (\<exists>n' g' e.
          entryAfter (assessResultCaching sampleEnv sampleResult sampleSearchee [''h1'']
            (worldWith (entryOf MATCH (Some ''h1'')) Map.empty)) n' g' = Some e
          \<and> DecisionEntry.decision e = MATCH \<and> DecisionEntry.infoHash e = None)
   \<and> entryAfter (assessResultCaching sampleEnv sampleResult sampleSearchee [] emptyWorld)
        ''S'' ''g''
     = Some \<lparr>DecisionEntry.decision = MATCH, firstSeen = 101, lastSeen = 102,
             infoHash = Some ''h1''\<rparr>"
proof -
  let ?W = "worldWith (entryOf MATCH (Some ''h1'')) Map.empty"
  let ?out = "assessResultCaching sampleEnv sampleResult sampleSearchee [''h1''] ?W"
  have before: "\<forall>n' g' e. entryAt ?W n' g' = Some e \<longrightarrow> DecisionEntry.decision e = MATCH
      \<longrightarrow> DecisionEntry.infoHash e \<noteq> None"
    by (auto simp: entryAt_def worldWith_def entryOf_def split: if_splits option.splits)
  have p: "plainAccess sampleEnv ?W (name sampleSearchee) (Guid sampleResult)"
    by (simp add: plainAccess_def worldWith_def sampleSearchee_def sampleResult_def)
  have 0: "plainAccess sampleEnv ?W ''S'' ''g''"
    using p by (simp add: sampleSearchee_def sampleResult_def)
  from infoHash_after_run [OF p, of "[''h1'']"]
  obtain a w' where run: "?out = Inr (a, w')"
    and inv: "(\<forall>n' g' e. entryAt ?W n' g' = Some e \<longrightarrow> DecisionEntry.decision e = MATCH
             \<longrightarrow> DecisionEntry.infoHash e \<noteq> None)
          \<longrightarrow> (\<forall>n' g' e. entryAt w' n' g' = Some e \<longrightarrow> DecisionEntry.decision e = MATCH
             \<longrightarrow> DecisionEntry.infoHash e \<noteq> None)"
    by blast
  from inv before have after: "\<forall>n' g' e. entryAt w' n' g' = Some e
      \<longrightarrow> DecisionEntry.decision e = MATCH \<longrightarrow> DecisionEntry.infoHash e \<noteq> None"
    by blast
  have 1: "\<not> (\<exists>n' g' e. entryAt ?W n' g' = Some e
          \<and> DecisionEntry.decision e = MATCH \<and> DecisionEntry.infoHash e = None)"
    using before by blast
  have 3: "\<not> (\<exists>n' g' e. entryAfter ?out n' g' = Some e
          \<and> DecisionEntry.decision e = MATCH \<and> DecisionEntry.infoHash e = None)"
    unfolding run using after by (simp add: entryAfter_def)
  have 2: "entryAfter ?out ''S'' ''g''
     = Some \<lparr>DecisionEntry.decision = INFO_HASH_ALREADY_EXISTS, firstSeen = 5, lastSeen = 100,
             infoHash = Some ''h1''\<rparr>"
    by (simp add: run_eval entryAfter_def worldWith_def entryOf_def sampleEnv_def
          sampleResult_def sampleSearchee_def)
  have 4: "entryAfter (assessResultCaching sampleEnv sampleResult sampleSearchee [] emptyWorld)
        ''S'' ''g''
     = Some \<lparr>DecisionEntry.decision = MATCH, firstSeen = 101, lastSeen = 102,
             infoHash = Some ''h1''\<rparr>"
    by (simp add: run_eval sizeDoesMatch_default_100 entryAfter_def emptyWorld_def
        sampleEnv_def sampleResult_def sampleSearchee_def sampleMeta_def sampleFile_def)
  from 0 1 2 3 4 show ?thesis by blast
qed

section \<open>When a cached entry is assessed again\<close>

lemma newEvents_append: "trace w' = trace w @ evs \<Longrightarrow> newEvents w w' = evs"
  by (simp add: newEvents_def)

lemma no_stage_in_saveEvents: "\<not> list_ex isStageEvent (saveEvents a)"
  by (simp add: saveEvents_def split: option.split)

lemma no_stage_in_logEvents: "\<not> list_ex isStageEvent (logEvents r s d c)"
  by (simp add: logEvents_def)

lemma no_fetch_in_saveEvents: "\<not> list_ex isFetch (saveEvents a)"
  by (simp add: saveEvents_def split: option.split)

lemma no_fetch_in_logEvents: "\<not> list_ex isFetch (logEvents r s d c)"
  by (simp add: logEvents_def)

lemma stage_in_stageEvents: "list_ex isStageEvent (stageEvents env r s ex)"
  by (simp add: stageEvents_def stagesEvaluated_def stages_def)

text \<open>
  Claim C3 as stated fails: a cached \<open>MATCH\<close> whose torrent file is missing is not
  always assessed again. Here the stored infoHash \<open>h1\<close> is in the exclusion set:
  the run appends the flush to the trace and nothing else, no stage and no
  download, and the decision becomes \<open>INFO_HASH_ALREADY_EXISTS\<close>.
\<close>

theorem excluded_match_not_reassessed:
  "map_option DecisionEntry.decision
      (entryAt (worldWith (entryOf MATCH (Some ''h1'')) Map.empty) ''S'' ''g'') = Some MATCH
   \<and> \<not> existsInTorrentCache (Some ''h1'') (worldWith (entryOf MATCH (Some ''h1'')) Map.empty)
   \<and> eventsOf (worldWith (entryOf MATCH (Some ''h1'')) Map.empty)
        (assessResultCaching sampleEnv sampleResult sampleSearchee [''h1'']
           (worldWith (entryOf MATCH (Some ''h1'')) Map.empty)) = Some [Call_db_write]
   \<and> decisionOf (assessResultCaching sampleEnv sampleResult sampleSearchee [''h1'']
        (worldWith (entryOf MATCH (Some ''h1'')) Map.empty)) = Some INFO_HASH_ALREADY_EXISTS"
  by (simp add: run_eval eventsOf_def newEvents_def decisionOf_def worldWith_def entryOf_def
        sampleEnv_def sampleResult_def sampleSearchee_def)

text \<open>
  Claim C3, amended. For a pair with a cached entry the run returns, and the
  stages of the full assessment are evaluated if and only if the cached decision
  is \<open>DOWNLOAD_FAILED\<close>, or it is \<open>MATCH\<close> with the stored infoHash outside the
  exclusion set and the torrent file missing from the cache. When they are, the
  result is that of \<open>assessResultHelper\<close> and its stage events come first among
  the new events; \<open>parseTorrentFromURL\<close> is called in a run exactly when the
  stages are evaluated, the size check passes and there is a link. A cached
  \<open>SIZE_MISMATCH\<close>, \<open>NO_DOWNLOAD_LINK\<close>, \<open>FILE_TREE_MISMATCH\<close> or
  \<open>INFO_HASH_ALREADY_EXISTS\<close> is returned as it is, the run logs the cached
  reason and flushes, and the entry changes in \<open>lastSeen\<close> only.
\<close>

theorem reassessment_iff:
  assumes "entryAt w (name s) (Guid r) = Some ce"
  shows "\<exists>a w'. assessResultCaching env r s ex w = Inr (a, w')
     \<and> (list_ex isStageEvent (newEvents w w') \<longleftrightarrow>
           DecisionEntry.decision ce = DOWNLOAD_FAILED
           \<or> (DecisionEntry.decision ce = MATCH
               \<and> \<not> includes_js ex (DecisionEntry.infoHash ce)
               \<and> \<not> existsInTorrentCache (DecisionEntry.infoHash ce) w))
     \<and> (list_ex isStageEvent (newEvents w w') \<longrightarrow>
           a = fst (assessResultHelper env r s ex w)
           \<and> take (length (stageEvents env r s ex)) (newEvents w w') = stageEvents env r s ex)
     \<and> (list_ex isFetch (newEvents w w') \<longleftrightarrow>
           list_ex isStageEvent (newEvents w w')
           \<and> sizeDoesMatch env (Size r) s \<and> linkText r \<noteq> [])
     \<and> (DecisionEntry.decision ce \<in>
           {SIZE_MISMATCH, NO_DOWNLOAD_LINK, FILE_TREE_MISMATCH, INFO_HASH_ALREADY_EXISTS} \<longrightarrow>
           a = verdict (DecisionEntry.decision ce)
           \<and> newEvents w w' = logEvents r s (DecisionEntry.decision ce) True @ [Call_db_write]
           \<and> entryAt w' (name s) (Guid r) = Some (ce\<lparr>lastSeen := clock env (ticks w)\<rparr>))"
proof (cases rule: branch_cases [of ex w "name s" "Guid r"])
  case full
  let ?a = "assessed env r s ex"
  let ?w' = "w\<lparr>decisions := (decisions w)(name s \<mapsto> (partitionOf w (name s))(Guid r \<mapsto>
                (freshEntry env w ?a)\<lparr>lastSeen := clock env (Suc (Suc (ticks w)))\<rparr>)),
            flushed := (decisions w)(name s \<mapsto> (partitionOf w (name s))(Guid r \<mapsto>
                (freshEntry env w ?a)\<lparr>lastSeen := clock env (Suc (Suc (ticks w)))\<rparr>)),
            torrentCache := savedCache ?a (torrentCache w),
            ticks := Suc (Suc (Suc (ticks w))),
            trace := trace w @ stageEvents env r s ex @ saveEvents ?a
                     @ logEvents r s (ResultAssessment.decision ?a) False
                     @ [Call_db_write]\<rparr>"
  have run: "assessResultCaching env r s ex w = Inr (?a, ?w')"
    by (rule run_full [OF full plainAccess_entry [OF assms]])
  have ev: "newEvents w ?w' = stageEvents env r s ex @ saveEvents ?a
                     @ logEvents r s (ResultAssessment.decision ?a) False @ [Call_db_write]"
    by (rule newEvents_append) simp
  have cond: "DecisionEntry.decision ce = DOWNLOAD_FAILED
           \<or> (DecisionEntry.decision ce = MATCH
               \<and> \<not> includes_js ex (DecisionEntry.infoHash ce)
               \<and> \<not> existsInTorrentCache (DecisionEntry.infoHash ce) w)"
    using full assms by (auto simp: branchOf_def split: if_splits)
  have st: "list_ex isStageEvent (newEvents w ?w')"
    unfolding ev using stage_in_stageEvents [of env r s ex] by simp
  have fe: "list_ex isFetch (newEvents w ?w') \<longleftrightarrow> sizeDoesMatch env (Size r) s \<and> linkText r \<noteq> []"
    unfolding ev
    using no_fetch_in_saveEvents [of ?a]
      no_fetch_in_logEvents [of r s "ResultAssessment.decision ?a" False]
    by (simp add: stageEvents_fetch)
  have res: "?a = fst (assessResultHelper env r s ex w)"
    by (simp add: assessResultHelper_staged)
  have pre: "take (length (stageEvents env r s ex)) (newEvents w ?w') = stageEvents env r s ex"
    unfolding ev by simp
  have notrej: "DecisionEntry.decision ce \<notin>
           {SIZE_MISMATCH, NO_DOWNLOAD_LINK, FILE_TREE_MISMATCH, INFO_HASH_ALREADY_EXISTS}"
    using cond by auto
  from run st cond fe res pre notrej show ?thesis by blast
next
  case (exclusion ce')
  with assms have ce: "ce' = ce" by simp
  from exclusion ce have c: "DecisionEntry.decision ce = MATCH"
    "includes_js ex (DecisionEntry.infoHash ce)"
    by (auto simp: branchOf_def split: if_splits)
  from exclusion ce obtain w' where
    run: "assessResultCaching env r s ex w = Inr (verdict INFO_HASH_ALREADY_EXISTS, w')"
    and tr: "trace w' = trace w @ [Call_db_write]"
    by (simp add: run_exclusion)
  have ev: "newEvents w w' = [Call_db_write]"
    using tr by (rule newEvents_append)
  from run c show ?thesis
    by (intro exI [of _ "verdict INFO_HASH_ALREADY_EXISTS"] exI [of _ w']) (simp add: ev)
next
  case (cachedMatch ce')
  with assms have ce: "ce' = ce" by simp
  from cachedMatch ce have c: "DecisionEntry.decision ce = MATCH"
    "existsInTorrentCache (DecisionEntry.infoHash ce) w"
    by (auto simp: branchOf_def split: if_splits)
  from cachedMatch ce obtain a w' where
    run: "assessResultCaching env r s ex w = Inr (a, w')"
    and tr: "trace w' = trace w @ [Call_getCachedTorrentFile (cacheKey (DecisionEntry.infoHash ce)),
                                Call_db_write]"
    by (simp add: run_cachedMatch)
  have ev: "newEvents w w' = [Call_getCachedTorrentFile (cacheKey (DecisionEntry.infoHash ce)),
                                Call_db_write]"
    using tr by (rule newEvents_append)
  from run c show ?thesis
    by (intro exI [of _ a] exI [of _ w']) (simp add: ev)
next
  case (cachedRejection ce')
  with assms have ce: "ce' = ce" by simp
  from cachedRejection ce have c: "DecisionEntry.decision ce \<noteq> MATCH"
    "DecisionEntry.decision ce \<noteq> DOWNLOAD_FAILED"
    by (auto simp: branchOf_def split: if_splits)
  from cachedRejection ce obtain w' where
    run: "assessResultCaching env r s ex w = Inr (verdict (DecisionEntry.decision ce), w')"
    and tr: "trace w' = trace w @ logEvents r s (DecisionEntry.decision ce) True @ [Call_db_write]"
    and en: "entryAt w' (name s) (Guid r) = Some (ce\<lparr>lastSeen := clock env (ticks w)\<rparr>)"
    by (simp add: run_cachedRejection entryAt_def)
  have ev: "newEvents w w' = logEvents r s (DecisionEntry.decision ce) True @ [Call_db_write]"
    using tr by (rule newEvents_append)
  have ns: "\<not> list_ex isStageEvent (newEvents w w')"
    unfolding ev using no_stage_in_logEvents [of r s "DecisionEntry.decision ce" True] by simp
  have nf: "\<not> list_ex isFetch (newEvents w w')"
    unfolding ev using no_fetch_in_logEvents [of r s "DecisionEntry.decision ce" True] by simp
  from run c ns nf ev en show ?thesis
    by (intro exI [of _ "verdict (DecisionEntry.decision ce)"] exI [of _ w']) simp
qed

text \<open>
  The theorem at a cached \<open>DOWNLOAD_FAILED\<close>: the five stages run again, the
  metafile is fetched and the candidate now matches. At a cached
  \<open>FILE_TREE_MISMATCH\<close> the run logs the cached reason and flushes.
\<close>

theorem reassessment_iff_witness:
  "entryAt (worldWith (entryOf DOWNLOAD_FAILED None) Map.empty) ''S'' ''g''
     = Some (entryOf DOWNLOAD_FAILED None)
   \<and> eventsOf (worldWith (entryOf DOWNLOAD_FAILED None) Map.empty)
        (assessResultCaching sampleEnv sampleResult sampleSearchee []
           (worldWith (entryOf DOWNLOAD_FAILED None) Map.empty))
     = Some [Call_sizeDoesMatch, Test_Link, Call_parseTorrentFromURL ''u'', Call_includes,
             Call_compareFileTrees, Call_cacheTorrentFile ''h1'', Call_db_write]
   \<and> decisionOf (assessResultCaching sampleEnv sampleResult sampleSearchee []
        (worldWith (entryOf DOWNLOAD_FAILED None) Map.empty)) = Some MATCH
   \<and> entryAt (worldWith (entryOf FILE_TREE_MISMATCH None) Map.empty) ''S'' ''g''
     = Some (entryOf FILE_TREE_MISMATCH None)
   \<and> eventsOf (worldWith (entryOf FILE_TREE_MISMATCH None) Map.empty)
        (assessResultCaching sampleEnv sampleResult sampleSearchee []
           (worldWith (entryOf FILE_TREE_MISMATCH None) Map.empty))
     = Some [Call_logger_verbose ''S'' 1 ''T'' ''it has a different file tree (cached)'',
             Call_db_write]
   \<and> decisionOf (assessResultCaching sampleEnv sampleResult sampleSearchee []
        (worldWith (entryOf FILE_TREE_MISMATCH None) Map.empty)) = Some FILE_TREE_MISMATCH"
  using reassessment_iff
          [of "worldWith (entryOf DOWNLOAD_FAILED None) Map.empty" sampleSearchee sampleResult
              "entryOf DOWNLOAD_FAILED None" sampleEnv "[]"]
        reassessment_iff
          [of "worldWith (entryOf FILE_TREE_MISMATCH None) Map.empty" sampleSearchee sampleResult
              "entryOf FILE_TREE_MISMATCH None" sampleEnv "[]"]
  by (simp add: run_eval sizeDoesMatch_default_100 eventsOf_def newEvents_def decisionOf_def
        worldWith_def entryOf_def sampleEnv_def sampleResult_def sampleSearchee_def
        sampleMeta_def sampleFile_def)

section \<open>Running the engine twice\<close>

lemma verdict_of_rejection:
  "ResultAssessment.decision (assessed env r s ex) \<noteq> MATCH
     \<Longrightarrow> assessed env r s ex = verdict (ResultAssessment.decision (assessed env r s ex))"
proof -
  assume "ResultAssessment.decision (assessed env r s ex) \<noteq> MATCH"
  then have "info (assessed env r s ex) = None"
    by (simp add: assessed_match_iff)
  then show ?thesis
    by (cases "assessed env r s ex") (simp add: verdict_def)
qed

lemma match_with_info:
  "info (assessed env r s ex) = Some meta
     \<Longrightarrow> assessed env r s ex = \<lparr>ResultAssessment.decision = MATCH, info = Some meta\<rparr>"
  using assessed_match_iff [of env r s ex] by (cases "assessed env r s ex") simp

text \<open>The second run after a run with a full assessment.\<close>

lemma second_run_after_full:
  assumes full: "fullAssessment (branchOf ex w (entryAt w (name s) (Guid r)))"
    and run: "assessResultCaching env r s ex w = Inr (a1, w1)"
    and plain: "plainAccess env w (name s) (Guid r)"
  shows "\<exists>w2. assessResultCaching env r s ex w1 = Inr (a1, w2)
           \<and> (ResultAssessment.decision a1 \<noteq> DOWNLOAD_FAILED
                \<longrightarrow> \<not> list_ex isFetch (newEvents w1 w2))"
proof -
  let ?a = "assessed env r s ex"
  let ?e1 = "(freshEntry env w ?a)\<lparr>lastSeen := clock env (Suc (Suc (ticks w)))\<rparr>"
  from run have a1: "a1 = ?a"
    and e1: "entryAt w1 (name s) (Guid r) = Some ?e1"
    and tc: "torrentCache w1 = savedCache ?a (torrentCache w)"
    by (auto simp: run_full [OF full plain] entryAt_def)
  have d1: "DecisionEntry.decision ?e1 = ResultAssessment.decision ?a"
    and h1: "DecisionEntry.infoHash ?e1 = map_option Metafile.infoHash (info ?a)"
    by (simp_all add: freshEntry_def)
  consider (failed) "ResultAssessment.decision ?a = DOWNLOAD_FAILED"
    | (match) "ResultAssessment.decision ?a = MATCH"
    | (rejected) "ResultAssessment.decision ?a \<noteq> DOWNLOAD_FAILED"
        "ResultAssessment.decision ?a \<noteq> MATCH"
    by blast
  then show ?thesis
  proof cases
    case failed
    have "fullAssessment (branchOf ex w1 (entryAt w1 (name s) (Guid r)))"
      unfolding e1 by (simp add: branchOf_def d1 failed)
    then have "\<exists>w2. assessResultCaching env r s ex w1 = Inr (?a, w2)"
      by (simp add: run_full [OF _ plainAccess_entry [OF e1]])
    with failed a1 show ?thesis by auto
  next
    case match
    then obtain meta where meta: "info ?a = Some meta"
      using assessed_match_iff [of env r s ex] by auto
    have nex: "Metafile.infoHash meta \<notin> set ex"
      using meta by (rule assessed_match_hash)
    have cached: "torrentCache w1 (Metafile.infoHash meta) = Some meta"
      by (simp add: tc savedCache_def meta)
    have b: "branchOf ex w1 (Some ?e1) = CachedMatch"
      using nex cached
      by (simp add: branchOf_def d1 h1 match meta includes_js_def existsInTorrentCache_def
            cacheKey_def)
    have key: "cacheKey (DecisionEntry.infoHash ?e1) = Metafile.infoHash meta"
      by (simp add: h1 meta cacheKey_def)
    from run_cachedMatch [OF e1 b, of env] obtain w2 where
      r2: "assessResultCaching env r s ex w1 =
             Inr (\<lparr>ResultAssessment.decision = MATCH, info = Some meta\<rparr>, w2)"
      and tr: "trace w2 = trace w1 @ [Call_getCachedTorrentFile (Metafile.infoHash meta),
                                      Call_db_write]"
      unfolding key cached by simp
    have ev: "newEvents w1 w2 = [Call_getCachedTorrentFile (Metafile.infoHash meta), Call_db_write]"
      using tr by (rule newEvents_append)
    from r2 show ?thesis
      unfolding a1 match_with_info [OF meta] by (intro exI [of _ w2]) (simp add: ev)
  next
    case rejected
    have b: "branchOf ex w1 (Some ?e1) = CachedRejection"
      using rejected by (simp add: branchOf_def d1)
    from run_cachedRejection [OF e1 b, of env] obtain w2 where
      r2: "assessResultCaching env r s ex w1 = Inr (verdict (ResultAssessment.decision ?a), w2)"
      and tr: "trace w2 = trace w1 @ logEvents r s (ResultAssessment.decision ?a) True
                 @ [Call_db_write]"
      unfolding d1 by simp
    have ev: "newEvents w1 w2 = logEvents r s (ResultAssessment.decision ?a) True @ [Call_db_write]"
      using tr by (rule newEvents_append)
    have nf: "\<not> list_ex isFetch (newEvents w1 w2)"
      unfolding ev
      using no_fetch_in_logEvents [of r s "ResultAssessment.decision ?a" True] by simp
    from r2 nf show ?thesis
      unfolding a1 using verdict_of_rejection [OF rejected(2)] by auto
  qed
qed

text \<open>The second run after a run that answered from the cache.\<close>

lemma second_run_after_cached:
  assumes entry: "entryAt w (name s) (Guid r) = Some ce"
    and nfull: "\<not> fullAssessment (branchOf ex w (Some ce))"
    and run: "assessResultCaching env r s ex w = Inr (a1, w1)"
  shows "\<exists>w2. assessResultCaching env r s ex w1 = Inr (a1, w2)
           \<and> \<not> list_ex isFetch (newEvents w1 w2)"
proof (cases "branchOf ex w (Some ce)")
  case NoEntry
  with nfull show ?thesis by simp
next
  case RetryDownload
  with nfull show ?thesis by simp
next
  case Regenerate
  with nfull show ?thesis by simp
next
  case Exclusion
  let ?e1 = "ce\<lparr>DecisionEntry.decision := INFO_HASH_ALREADY_EXISTS,
                 lastSeen := clock env (ticks w)\<rparr>"
  from run have a1: "a1 = verdict INFO_HASH_ALREADY_EXISTS"
    and e1: "entryAt w1 (name s) (Guid r) = Some ?e1"
    by (auto simp: run_exclusion [OF entry Exclusion] entryAt_def)
  have b: "branchOf ex w1 (Some ?e1) = CachedRejection"
    by (simp add: branchOf_def)
  from run_cachedRejection [OF e1 b, of env] obtain w2 where
    r2: "assessResultCaching env r s ex w1 = Inr (verdict INFO_HASH_ALREADY_EXISTS, w2)"
    and tr: "trace w2 = trace w1 @ logEvents r s INFO_HASH_ALREADY_EXISTS True @ [Call_db_write]"
    by simp
  have ev: "newEvents w1 w2 = logEvents r s INFO_HASH_ALREADY_EXISTS True @ [Call_db_write]"
    using tr by (rule newEvents_append)
  have nf: "\<not> list_ex isFetch (newEvents w1 w2)"
    unfolding ev using no_fetch_in_logEvents [of r s INFO_HASH_ALREADY_EXISTS True] by simp
  from r2 nf show ?thesis unfolding a1 by blast
next
  case CachedMatch
  let ?e1 = "ce\<lparr>lastSeen := clock env (ticks w)\<rparr>"
  let ?k = "cacheKey (DecisionEntry.infoHash ce)"
  from run have a1: "a1 = \<lparr>ResultAssessment.decision = MATCH, info = torrentCache w ?k\<rparr>"
    and e1: "entryAt w1 (name s) (Guid r) = Some ?e1"
    and tc: "torrentCache w1 = torrentCache w"
    by (auto simp: run_cachedMatch [OF entry CachedMatch] entryAt_def)
  have b: "branchOf ex w1 (Some ?e1) = CachedMatch"
    using CachedMatch by (simp add: branchOf_def existsInTorrentCache_def tc split: if_splits)
  from run_cachedMatch [OF e1 b, of env] obtain w2 where
    r2: "assessResultCaching env r s ex w1 =
           Inr (\<lparr>ResultAssessment.decision = MATCH, info = torrentCache w ?k\<rparr>, w2)"
    and tr: "trace w2 = trace w1 @ [Call_getCachedTorrentFile ?k, Call_db_write]"
    by (simp add: tc)
  have ev: "newEvents w1 w2 = [Call_getCachedTorrentFile ?k, Call_db_write]"
    using tr by (rule newEvents_append)
  from r2 show ?thesis unfolding a1 by (intro exI [of _ w2]) (simp add: ev)
next
  case CachedRejection
  let ?e1 = "ce\<lparr>lastSeen := clock env (ticks w)\<rparr>"
  from run have a1: "a1 = verdict (DecisionEntry.decision ce)"
    and e1: "entryAt w1 (name s) (Guid r) = Some ?e1"
    by (auto simp: run_cachedRejection [OF entry CachedRejection] entryAt_def)
  have b: "branchOf ex w1 (Some ?e1) = CachedRejection"
    using CachedRejection by (simp add: branchOf_def split: if_splits)
  from run_cachedRejection [OF e1 b, of env] obtain w2 where
    r2: "assessResultCaching env r s ex w1 = Inr (verdict (DecisionEntry.decision ce), w2)"
    and tr: "trace w2 = trace w1 @ logEvents r s (DecisionEntry.decision ce) True
               @ [Call_db_write]"
    by simp
  have ev: "newEvents w1 w2 = logEvents r s (DecisionEntry.decision ce) True @ [Call_db_write]"
    using tr by (rule newEvents_append)
  have nf: "\<not> list_ex isFetch (newEvents w1 w2)"
    unfolding ev using no_fetch_in_logEvents [of r s "DecisionEntry.decision ce" True] by simp
  from r2 nf show ?thesis unfolding a1 by blast
qed

text \<open>
  Idempotence within the decision cache. Let the reads and writes of the run
  stay within the cache, and let the second run have the same candidate,
  searchee, exclusion set and surroundings (the same answers of
  \<open>parseTorrentFromURL\<close>) and start in the world the first one left. Then both
  runs return, and the second returns the decision of the first. Unless the first
  decision was \<open>DOWNLOAD_FAILED\<close>, the second run does not call
  \<open>parseTorrentFromURL\<close>: that covers every other rejection, and the \<open>MATCH\<close>,
  whose torrent file is in the cache after the first run.
\<close>

lemma idempotent_within_cache:
  assumes plain: "plainAccess env w (name s) (Guid r)"
  shows "\<exists>a1 w1 a2 w2.
      assessResultCaching env r s ex w = Inr (a1, w1)
    \<and> assessResultCaching env r s ex w1 = Inr (a2, w2)
    \<and> ResultAssessment.decision a2 = ResultAssessment.decision a1
    \<and> (ResultAssessment.decision a1 \<noteq> DOWNLOAD_FAILED
         \<longrightarrow> \<not> list_ex isFetch (newEvents w1 w2))"
proof -
  obtain a1 w1 where run: "assessResultCaching env r s ex w = Inr (a1, w1)"
    using run_returns [OF plain] by blast
  have second: "\<exists>w2. assessResultCaching env r s ex w1 = Inr (a1, w2)
           \<and> (ResultAssessment.decision a1 \<noteq> DOWNLOAD_FAILED
                \<longrightarrow> \<not> list_ex isFetch (newEvents w1 w2))"
  proof (cases "fullAssessment (branchOf ex w (entryAt w (name s) (Guid r)))")
    case True
    from second_run_after_full [OF True run plain] show ?thesis .
  next
    case False
    then obtain ce where ce: "entryAt w (name s) (Guid r) = Some ce"
      by (cases "entryAt w (name s) (Guid r)") (auto simp: branchOf_def)
    from False have "\<not> fullAssessment (branchOf ex w (Some ce))"
      by (simp add: ce)
    from second_run_after_cached [OF ce this run] show ?thesis by blast
  qed
  from run second show ?thesis by blast
qed

section \<open>A settled \<open>INFO_HASH_ALREADY_EXISTS\<close> stays\<close>

lemma exists_decision_step:
  assumes e: "entryAt w n g = Some e"
    and d: "DecisionEntry.decision e = INFO_HASH_ALREADY_EXISTS"
    and run: "assessResultCaching env r s ex w = Inr (a, w')"
  shows "\<exists>e'. entryAt w' n g = Some e'
           \<and> DecisionEntry.decision e' = INFO_HASH_ALREADY_EXISTS"
proof (cases "(n, g) = (name s, Guid r)")
  case True
  then have here: "entryAt w (name s) (Guid r) = Some e"
    using e by simp
  have b: "branchOf ex w (Some e) = CachedRejection"
    by (simp add: branchOf_def d)
  from run have "entryAt w' (name s) (Guid r) = Some (e\<lparr>lastSeen := clock env (ticks w)\<rparr>)"
    by (auto simp: run_cachedRejection [OF here b] entryAt_def)
  with True d show ?thesis by simp
next
  case False
  from run_decisions [OF run] obtain e' where
    "decisions w' = (decisions w)(name s \<mapsto> (partitionOf w (name s))(Guid r \<mapsto> e'))"
    by blast
  from entryAt_upd_other [OF this False] e d show ?thesis by simp
qed

lemma exists_decision_later:
  assumes "later w w'"
  shows "map_option DecisionEntry.decision (entryAt w n g) = Some INFO_HASH_ALREADY_EXISTS
     \<Longrightarrow> map_option DecisionEntry.decision (entryAt w' n g) = Some INFO_HASH_ALREADY_EXISTS"
  using assms
proof (induction rule: later.induct)
  case (later_refl w)
  then show ?case .
next
  case (later_run w w' env r s ex a w'')
  from later_run.IH [OF later_run.prems] obtain e where
    "entryAt w' n g = Some e" "DecisionEntry.decision e = INFO_HASH_ALREADY_EXISTS"
    by auto
  from exists_decision_step [OF this later_run.hyps(2)] show ?case by auto
qed

text \<open>
  Claim C9. Once the entry of a pair says \<open>INFO_HASH_ALREADY_EXISTS\<close>, then after
  any number of runs of the engine, for this pair or others, with whatever
  exclusion sets, a run for the pair returns \<open>INFO_HASH_ALREADY_EXISTS\<close> with no
  metafile and without a download, whether or not the infoHash is excluded, and
  the entry still says \<open>INFO_HASH_ALREADY_EXISTS\<close>: it never says \<open>MATCH\<close> again.
\<close>

theorem info_hash_already_exists_is_final:
  assumes "map_option DecisionEntry.decision (entryAt w (name s) (Guid r))
             = Some INFO_HASH_ALREADY_EXISTS"
    and "later w w'"
  shows "\<exists>w''. assessResultCaching env r s ex w' = Inr (verdict INFO_HASH_ALREADY_EXISTS, w'')
           \<and> map_option DecisionEntry.decision (entryAt w'' (name s) (Guid r))
               = Some INFO_HASH_ALREADY_EXISTS
           \<and> \<not> list_ex isFetch (newEvents w' w'')"
proof -
  from exists_decision_later [OF assms(2) assms(1)] obtain e where
    e: "entryAt w' (name s) (Guid r) = Some e"
    and d: "DecisionEntry.decision e = INFO_HASH_ALREADY_EXISTS"
    by auto
  have b: "branchOf ex w' (Some e) = CachedRejection"
    by (simp add: branchOf_def d)
  from run_cachedRejection [OF e b, of env] obtain w'' where
    run: "assessResultCaching env r s ex w' = Inr (verdict INFO_HASH_ALREADY_EXISTS, w'')"
    and tr: "trace w'' = trace w' @ logEvents r s INFO_HASH_ALREADY_EXISTS True @ [Call_db_write]"
    and en: "entryAt w'' (name s) (Guid r) = Some (e\<lparr>lastSeen := clock env (ticks w')\<rparr>)"
    by (simp add: d entryAt_def)
  have ev: "newEvents w' w'' = logEvents r s INFO_HASH_ALREADY_EXISTS True @ [Call_db_write]"
    using tr by (rule newEvents_append)
  have nf: "\<not> list_ex isFetch (newEvents w' w'')"
    unfolding ev using no_fetch_in_logEvents [of r s INFO_HASH_ALREADY_EXISTS True] by simp
  from run en d nf show ?thesis by simp
qed

text \<open>
  The theorem at a settled entry for \<open>h1\<close>: a run with \<open>h1\<close> excluded, then a
  run with nothing excluded, the torrent file being cached and the candidate
  matching. Both answer \<open>INFO_HASH_ALREADY_EXISTS\<close>.
\<close>

theorem info_hash_already_exists_is_final_witness:
  "map_option DecisionEntry.decision (entryAt settledWorld ''S'' ''g'')
     = Some INFO_HASH_ALREADY_EXISTS
   \<and> later settledWorld
        (worldAfter settledWorld
           (assessResultCaching sampleEnv sampleResult sampleSearchee [''h1''] settledWorld))
   \<and> decisionOf (assessResultCaching sampleEnv sampleResult sampleSearchee [''h1''] settledWorld)
     = Some INFO_HASH_ALREADY_EXISTS
   \<and> decisionOf (assessResultCaching sampleEnv sampleResult sampleSearchee []
        (worldAfter settledWorld
           (assessResultCaching sampleEnv sampleResult sampleSearchee [''h1''] settledWorld)))
     = Some INFO_HASH_ALREADY_EXISTS
   \<and> ResultAssessment.decision
        (fst (assessResultHelper sampleEnv sampleResult sampleSearchee [] settledWorld)) = MATCH"
proof -
  let ?first = "assessResultCaching sampleEnv sampleResult sampleSearchee [''h1''] settledWorld"
  have settled: "map_option DecisionEntry.decision
      (entryAt settledWorld (name sampleSearchee) (Guid sampleResult))
     = Some INFO_HASH_ALREADY_EXISTS"
    by (simp add: entryAt_def settledWorld_def worldWith_def entryOf_def sampleSearchee_def
          sampleResult_def)
  from info_hash_already_exists_is_final [OF settled later_refl, of sampleEnv "[''h1'']"]
  obtain w1 where run1: "?first = Inr (verdict INFO_HASH_ALREADY_EXISTS, w1)"
    by blast
  have l: "later settledWorld w1"
    using later_run [OF later_refl run1] .
  from info_hash_already_exists_is_final [OF settled l, of sampleEnv "[]"]
  obtain w2 where
    run2: "assessResultCaching sampleEnv sampleResult sampleSearchee [] w1
             = Inr (verdict INFO_HASH_ALREADY_EXISTS, w2)"
    by blast
  have wa: "worldAfter settledWorld ?first = w1"
    by (simp add: run1 worldAfter_def)
  have 1: "map_option DecisionEntry.decision (entryAt settledWorld ''S'' ''g'')
     = Some INFO_HASH_ALREADY_EXISTS"
    using settled by (simp add: sampleSearchee_def sampleResult_def)
  have 2: "later settledWorld (worldAfter settledWorld ?first)"
    unfolding wa by (rule l)
  have 3: "decisionOf ?first = Some INFO_HASH_ALREADY_EXISTS"
    by (simp add: run1 decisionOf_def verdict_def)
  have 4: "decisionOf (assessResultCaching sampleEnv sampleResult sampleSearchee []
        (worldAfter settledWorld ?first)) = Some INFO_HASH_ALREADY_EXISTS"
    unfolding wa by (simp add: run2 decisionOf_def verdict_def)
  have 5: "ResultAssessment.decision
        (fst (assessResultHelper sampleEnv sampleResult sampleSearchee [] settledWorld)) = MATCH"
    by (simp add: assessResultHelper_def sizeDoesMatch_default_100 compareFileTrees_def cmp_def
          sampleEnv_def sampleResult_def sampleSearchee_def sampleMeta_def sampleFile_def Let_def)
  from 1 2 3 4 5 show ?thesis by (intro conjI)
qed

section \<open>Keys that objects inherit\<close>

text \<open>
  At the empty cache, a searchee named \<^verbatim>\<open>__proto__\<close>, and a searchee named
  \<^verbatim>\<open>constructor\<close> with a candidate whose guid is \<^verbatim>\<open>length\<close>: the cache has no
  property of its own for the searchee name, the name is inherited, and
  \<^verbatim>\<open>db.data.decisions[searchee.name]\<close> yields what \<^verbatim>\<open>Object.prototype\<close> holds
  there. The run does not stay within the decision cache; the model stops at the
  name, and the results on runs that return do not cover it.
\<close>

lemma run_at_inherited_name:
  "\<not> plainAccess sampleEnv emptyWorld ''__proto__'' ''g''"
  "assessResultCaching sampleEnv sampleResult (sampleSearchee\<lparr>name := ''__proto__''\<rparr>) []
     emptyWorld = Inl (OffMap ''__proto__'')"
  "\<not> plainAccess sampleEnv emptyWorld ''constructor'' ''length''"
  "assessResultCaching sampleEnv (sampleResult\<lparr>Guid := ''length''\<rparr>)
     (sampleSearchee\<lparr>name := ''constructor''\<rparr>) [] emptyWorld = Inl (OffMap ''constructor'')"
  by (simp_all add: plainAccess_def assessResultCaching_def ensurePartition_def
        readPartition_def builtinName_def emptyWorld_def sampleEnv_def sampleResult_def
        sampleSearchee_def)

end
